theory Spec2Isabelle
  imports Main "HOL-Library.Word" "HOL-Library.Sublist"
begin

section \<open>Strings\<close>

text \<open>
  A JavaScript string is a sequence of UTF-16 code units. \<open>js\<close> writes a string
  literal of the source (all of them are ASCII) as such a sequence.
\<close>

type_synonym jsstring = "16 word list"

definition js :: "string \<Rightarrow> jsstring" where
  "js s = map of_char s"

text \<open>
  \<open>String.prototype.trim\<close> removes the code units of WhiteSpace and LineTerminator
  from both ends: TAB, LF, VT, FF, CR, SP, NBSP, U+1680, U+2000 to U+200A, LS, PS,
  U+202F, U+205F, U+3000 and the byte order mark U+FEFF.
\<close>

definition is_white_space :: "16 word \<Rightarrow> bool" where
  "is_white_space c =
     (c = 0x0009 \<or> c = 0x000A \<or> c = 0x000B \<or> c = 0x000C \<or> c = 0x000D \<or> c = 0x0020
      \<or> c = 0x00A0 \<or> c = 0x1680 \<or> (0x2000 \<le> c \<and> c \<le> 0x200A) \<or> c = 0x2028
      \<or> c = 0x2029 \<or> c = 0x202F \<or> c = 0x205F \<or> c = 0x3000 \<or> c = 0xFEFF)"

definition trim :: "jsstring \<Rightarrow> jsstring" where
  "trim s = rev (dropWhile is_white_space (rev (dropWhile is_white_space s)))"

text \<open>\<open>s.substring(0, n)\<close> for a string \<open>s\<close> and \<open>n \<ge> 0\<close>.\<close>

definition substring0 :: "nat \<Rightarrow> jsstring \<Rightarrow> jsstring" where
  "substring0 n s = take n s"


section \<open>The event emitter (src/lib/realtime.ts)\<close>

text \<open>
  \<open>RealtimeEventEmitter\<close> keeps its subscribers in a \<open>Set\<close> of callbacks. A \<open>Set\<close>
  holds each function object once and iterates in insertion order, so the model is a
  list of callback identities \<open>'c\<close> without repetition, oldest first.

  What a callback does when it is called is given by \<open>call\<close>: on an event and a world
  \<open>'w\<close> (everything the callbacks can change outside the emitter) it either returns
  normally with a new world, \<open>Some w'\<close>, or throws, \<open>None\<close>, and then leaves the world as
  it was. Callbacks do not subscribe or unsubscribe while they are called.
\<close>

type_synonym ('c, 'e, 'w) callbacks = "'c \<Rightarrow> 'e \<Rightarrow> 'w \<Rightarrow> 'w option"

text \<open>\<open>this.subscribers.add(callback)\<close>: adding a member again changes nothing.\<close>

definition subscribe :: "'c \<Rightarrow> 'c list \<Rightarrow> 'c list" where
  "subscribe callback subscribers =
     (if callback \<in> set subscribers then subscribers else subscribers @ [callback])"

text \<open>
  The closure that \<open>subscribe\<close> returns: \<open>this.subscribers.delete(callback)\<close>, which
  answers \<open>false\<close> and changes nothing when the callback is not a member.
\<close>

definition unsubscribe :: "'c \<Rightarrow> 'c list \<Rightarrow> 'c list" where
  "unsubscribe callback subscribers = removeAll callback subscribers"

text \<open>
  The outcome of \<open>emit(event)\<close>: the callbacks that were called, in order, the world they
  left, and whether one of them threw. \<open>forEach\<close> has no handler around the call, so the
  first exception ends the iteration and leaves \<open>emit\<close>.
\<close>

record ('c, 'w) emitted =
  invoked :: "'c list"
  world :: 'w
  raised :: bool

fun emit :: "('c, 'e, 'w) callbacks \<Rightarrow> 'c list \<Rightarrow> 'e \<Rightarrow> 'w \<Rightarrow> ('c, 'w) emitted" where
  "emit call [] event w = \<lparr>invoked = [], world = w, raised = False\<rparr>"
| "emit call (callback # rest) event w =
     (case call callback event w of
        None \<Rightarrow> \<lparr>invoked = [callback], world = w, raised = True\<rparr>
      | Some w' \<Rightarrow>
          (let r = emit call rest event w' in r\<lparr>invoked := callback # invoked r\<rparr>))"


section \<open>The memory store (src/lib/memory-store.ts)\<close>

text \<open>
  The result stored with a workflow, with the two fields (\<open>rootCause\<close>,
  \<open>confidence\<close>) that the worker adds to the interface. Counters are JavaScript numbers
  holding non-negative integers; they are natural numbers here, which is exact below
  \<open>2 ^ 53\<close>. The two tallies are plain objects used as dictionaries; a map gives their
  own properties.
\<close>

record workflow_result =
  errorType :: jsstring
  severity :: jsstring
  suggestions :: "jsstring list"
  rootCause :: "jsstring option"
  confidence :: "nat option"
  processedAt :: jsstring

record WorkflowRecord =
  workflow_id :: jsstring
  result :: workflow_result
  workflow_timestamp :: jsstring

record statistics_record =
  errorTypes :: "jsstring \<rightharpoonup> nat"
  severityCount :: "jsstring \<rightharpoonup> nat"
  averageProcessingTime :: nat

record MemoryStore =
  totalErrors :: nat
  lastProcessed :: "jsstring option"
  workflows :: "WorkflowRecord list"
  statistics :: statistics_record

text \<open>
  \<open>createMemoryStore()\<close>. The module variables \<open>memory\<close> of the worker route and
  \<open>memoryStore\<close> of the memory route are initialised with the same literal.
\<close>

definition createMemoryStore :: MemoryStore where
  "createMemoryStore =
     \<lparr>totalErrors = 0, lastProcessed = None, workflows = [],
      statistics = \<lparr>errorTypes = Map.empty, severityCount = Map.empty,
                    averageProcessingTime = 0\<rparr>\<rparr>"

text \<open>\<open>counts[key] = (counts[key] || 0) + 1\<close>\<close>

definition tally :: "(jsstring \<rightharpoonup> nat) \<Rightarrow> jsstring \<Rightarrow> (jsstring \<rightharpoonup> nat)" where
  "tally counts key = counts(key \<mapsto> (case counts key of None \<Rightarrow> 0 | Some n \<Rightarrow> n) + 1)"

definition incrementErrors :: "MemoryStore \<Rightarrow> MemoryStore" where
  "incrementErrors store = store\<lparr>totalErrors := totalErrors store + 1\<rparr>"

definition updateLastProcessed :: "MemoryStore \<Rightarrow> jsstring \<Rightarrow> MemoryStore" where
  "updateLastProcessed store err = store\<lparr>lastProcessed := Some (substring0 100 err)\<rparr>"

definition addWorkflow :: "MemoryStore \<Rightarrow> WorkflowRecord \<Rightarrow> MemoryStore" where
  "addWorkflow store workflow =
     (let workflows' = take 10 (workflow # workflows store);
          errorTypes' = tally (errorTypes (statistics store)) (errorType (result workflow));
          severityCount' = tally (severityCount (statistics store)) (severity (result workflow))
      in store\<lparr>workflows := workflows',
               statistics := (statistics store)\<lparr>errorTypes := errorTypes',
                                               severityCount := severityCount'\<rparr>\<rparr>)"


section \<open>Events and the analysis agent\<close>

datatype event_type = T_error_input | T_validation | T_workflow | T_memory_update | T_completed

datatype event_status = S_pending | S_processing | S_completed | S_error

text \<open>\<open>agent.getMetadata()\<close>: name, description, version and the schedules of \<open>onStart\<close>.\<close>

record agent_metadata =
  agent_name :: jsstring
  agent_description :: jsstring
  agent_version :: jsstring
  agent_schedules :: "(jsstring \<times> jsstring) list"

definition getMetadata :: agent_metadata where
  "getMetadata =
     \<lparr>agent_name = js ''ErrorAnalysisAgent'',
      agent_description = js ''AI-powered error analysis and pattern recognition'',
      agent_version = js ''1.0.0'',
      agent_schedules = [(js ''daily at 11:59pm'', js ''generateDailySummary''),
                         (js ''every 6 hours'', js ''analyzePatterns'')]\<rparr>"

datatype event_data = Memory_data MemoryStore | Completed_data workflow_result agent_metadata

text \<open>A \<open>Date\<close> is its time value (milliseconds); an ISO date string is a string.\<close>

record RealtimeEvent =
  event_id :: jsstring
  event_type :: event_type
  message :: jsstring
  timestamp :: nat
  status :: event_status
  data :: "event_data option"

record ErrorAnalysis =
  analysis_type :: jsstring
  category :: jsstring
  analysis_rootCause :: jsstring
  analysis_suggestions :: "jsstring list"
  relatedPatterns :: "jsstring list"
  analysis_confidence :: nat

record ErrorRecord =
  record_id :: jsstring
  record_error :: jsstring
  analysis :: "ErrorAnalysis option"
  record_timestamp :: jsstring
  record_severity :: jsstring

text \<open>
  \<open>await agent.analyzeError(eventId, error)\<close> either gives an \<open>ErrorRecord\<close> or rejects.
  The classification itself (keyword rules over the lower-cased text, or the AI call)
  and the agent's own state are not modelled: the handler is modelled for every
  outcome of the call.
\<close>

datatype analyzeError_outcome = Rejects | Resolves ErrorRecord

text \<open>The decimal digits of a number, as a template literal writes an integer.\<close>

fun decimal :: "nat \<Rightarrow> jsstring" where
  "decimal n = (if n < 10 then [of_nat (48 + n)]
                else decimal (n div 10) @ [of_nat (48 + n mod 10)])"

declare decimal.simps [simp del]


section \<open>The worker route (src/app/api/worker/route.ts)\<close>

text \<open>
  The request body \<open>{ error, eventId }\<close>. \<open>error\<close> is a string or is missing
  (\<open>undefined\<close> or \<open>null\<close>); \<open>eventId\<close> is a string.
\<close>

record worker_body =
  error :: "jsstring option"
  eventId :: jsstring

text \<open>
  What the handler reads from outside during one request: the value of each
  \<open>new Date()\<close>, in the order of the source, and the outcome of the agent call.
\<close>

record worker_env =
  date_validation :: nat
  date_error :: nat
  date_workflow :: nat
  analyzeError :: analyzeError_outcome
  date_record :: jsstring
  date_memory :: nat
  date_completed :: nat

datatype response_body =
    Failure jsstring
  | Worker_success workflow_result MemoryStore
  | Worker_status agent_metadata MemoryStore
  | Memory_snapshot MemoryStore
  | Memory_success MemoryStore

record response =
  status_code :: nat
  body :: response_body

text \<open>
  The result of one call of \<open>POST\<close>: the events it passed to \<open>emit\<close>, in order, the
  world the callbacks left, the module variable \<open>memory\<close> afterwards and the response.
\<close>

record 'w post_result =
  published :: "RealtimeEvent list"
  world_after :: 'w
  memory_after :: MemoryStore
  response :: response

text \<open>The \<open>catch\<close> block: status 500, whatever was thrown inside \<open>try\<close>.\<close>

definition processing_failed ::
  "RealtimeEvent list \<Rightarrow> 'w \<Rightarrow> MemoryStore \<Rightarrow> 'w post_result" where
  "processing_failed events w memory =
     \<lparr>published = events, world_after = w, memory_after = memory,
      response = \<lparr>status_code = 500, body = Failure (js ''Processing failed'')\<rparr>\<rparr>"

text \<open>\<open>errorRecord.analysis?.type || "Unknown"\<close>: the empty string is falsy.\<close>

definition errorType_of :: "ErrorRecord \<Rightarrow> jsstring" where
  "errorType_of errorRecord =
     (case analysis errorRecord of
        None \<Rightarrow> js ''Unknown''
      | Some a \<Rightarrow> if analysis_type a = [] then js ''Unknown'' else analysis_type a)"

definition workflowRecord_of :: "jsstring \<Rightarrow> ErrorRecord \<Rightarrow> jsstring \<Rightarrow> WorkflowRecord" where
  "workflowRecord_of evId errorRecord now =
     \<lparr>workflow_id = evId,
      result =
        \<lparr>errorType = errorType_of errorRecord,
         severity = record_severity errorRecord,
         suggestions =
           (case analysis errorRecord of None \<Rightarrow> [] | Some a \<Rightarrow> analysis_suggestions a),
         rootCause = map_option analysis_rootCause (analysis errorRecord),
         confidence = map_option analysis_confidence (analysis errorRecord),
         processedAt = record_timestamp errorRecord\<rparr>,
      workflow_timestamp = now\<rparr>"

text \<open>
  Lines 80 to 104, the writes to \<open>memory\<close> in the order of the source: the counter,
  the truncated text, the bounded list, the two tallies.
\<close>

definition update_memory ::
  "MemoryStore \<Rightarrow> jsstring \<Rightarrow> WorkflowRecord \<Rightarrow> ErrorRecord \<Rightarrow> MemoryStore" where
  "update_memory memory err workflowRecord errorRecord =
     (let m1 = memory\<lparr>totalErrors := totalErrors memory + 1\<rparr>;
          m2 = m1\<lparr>lastProcessed := Some (substring0 100 err)\<rparr>;
          m3 = m2\<lparr>workflows := take 10 (workflowRecord # workflows m2)\<rparr>;
          m4 = m3\<lparr>statistics := (statistics m3)
                 \<lparr>errorTypes := tally (errorTypes (statistics m3)) (errorType_of errorRecord)\<rparr>\<rparr>;
          m5 = m4\<lparr>statistics := (statistics m4)
                 \<lparr>severityCount :=
                    tally (severityCount (statistics m4)) (record_severity errorRecord)\<rparr>\<rparr>
      in m5)"

text \<open>The template literal of the completion message.\<close>

definition completed_message :: "ErrorRecord \<Rightarrow> jsstring" where
  "completed_message errorRecord =
     js ''AI Agent completed analysis: '' @ errorType_of errorRecord @ js '' ('' @
     (case analysis errorRecord of
        None \<Rightarrow> js ''undefined''
      | Some a \<Rightarrow> decimal (analysis_confidence a)) @
     js ''% confidence)''"

text \<open>
  The handler from the emission of the workflow event on (lines 62 to 139), for an
  input that passed validation. One request is handled from its beginning to its end:
  the two \<open>setTimeout\<close> delays, where other requests could run in between, are left
  out. What changes around a callback between two events (a client going away during
  a delay) shows in \<open>call\<close>, which depends on the event.
\<close>

definition process_workflow ::
  "('c, RealtimeEvent, 'w) callbacks \<Rightarrow> 'c list \<Rightarrow> worker_env \<Rightarrow> jsstring \<Rightarrow> jsstring \<Rightarrow>
   RealtimeEvent \<Rightarrow> MemoryStore \<Rightarrow> 'w \<Rightarrow> 'w post_result" where
  "process_workflow call subscribers env err evId validationEvent memory w =
     (let workflowEvent =
            \<lparr>event_id = evId @ js ''_workflow'', event_type = T_workflow,
             message = js ''AI Agent analyzing error...'', timestamp = date_workflow env,
             status = S_processing, data = None\<rparr>;
          r2 = emit call subscribers workflowEvent w
      in if raised r2 then
           processing_failed [validationEvent, workflowEvent] (world r2) memory
         else
           (case analyzeError env of
              Rejects \<Rightarrow> processing_failed [validationEvent, workflowEvent] (world r2) memory
            | Resolves errorRecord \<Rightarrow>
                (let workflowRecord = workflowRecord_of evId errorRecord (date_record env);
                     memory' = update_memory memory err workflowRecord errorRecord;
                     memoryEvent =
                       \<lparr>event_id = evId @ js ''_memory'', event_type = T_memory_update,
                        message = js ''Memory store updated'', timestamp = date_memory env,
                        status = S_completed, data = Some (Memory_data memory')\<rparr>;
                     r3 = emit call subscribers memoryEvent (world r2)
                 in if raised r3 then
                      processing_failed [validationEvent, workflowEvent, memoryEvent]
                        (world r3) memory'
                    else
                      (let completedEvent =
                             \<lparr>event_id = evId, event_type = T_completed,
                              message = completed_message errorRecord,
                              timestamp = date_completed env, status = S_completed,
                              data = Some (Completed_data (result workflowRecord) getMetadata)\<rparr>;
                           r4 = emit call subscribers completedEvent (world r3)
                       in if raised r4 then
                            processing_failed
                              [validationEvent, workflowEvent, memoryEvent, completedEvent]
                              (world r4) memory'
                          else
                            \<lparr>published =
                               [validationEvent, workflowEvent, memoryEvent, completedEvent],
                             world_after = world r4, memory_after = memory',
                             response =
                               \<lparr>status_code = 200,
                                body = Worker_success (result workflowRecord) memory'\<rparr>\<rparr>))))"

text \<open>
  The rejection branch (lines 51 to 59): the second validation event, with status
  \<open>error\<close>, and the response with status 400.
\<close>

definition validation_failed ::
  "('c, RealtimeEvent, 'w) callbacks \<Rightarrow> 'c list \<Rightarrow> worker_env \<Rightarrow> jsstring \<Rightarrow>
   RealtimeEvent \<Rightarrow> MemoryStore \<Rightarrow> 'w \<Rightarrow> 'w post_result" where
  "validation_failed call subscribers env evId validationEvent memory w =
     (let errorEvent =
            \<lparr>event_id = evId @ js ''_error'', event_type = T_validation,
             message = js ''Validation failed: Empty error message'',
             timestamp = date_error env, status = S_error, data = None\<rparr>;
          r2 = emit call subscribers errorEvent w
      in if raised r2 then processing_failed [validationEvent, errorEvent] (world r2) memory
         else
           \<lparr>published = [validationEvent, errorEvent], world_after = world r2,
            memory_after = memory,
            response = \<lparr>status_code = 400, body = Failure (js ''Invalid input'')\<rparr>\<rparr>)"

text \<open>
  \<open>POST\<close>. The test \<open>!error || error.trim().length === 0\<close> is the case distinction:
  a missing \<open>error\<close> is falsy, and so is the empty string. The field \<open>agent\<close> of the
  success response (name and state of the agent) is not part of the model.
\<close>

definition worker_POST ::
  "('c, RealtimeEvent, 'w) callbacks \<Rightarrow> 'c list \<Rightarrow> worker_env \<Rightarrow> worker_body \<Rightarrow>
   MemoryStore \<Rightarrow> 'w \<Rightarrow> 'w post_result" where
  "worker_POST call subscribers env request memory w =
     (let validationEvent =
            \<lparr>event_id = eventId request @ js ''_validation'', event_type = T_validation,
             message = js ''Validating error input...'', timestamp = date_validation env,
             status = S_processing, data = None\<rparr>;
          r1 = emit call subscribers validationEvent w
      in if raised r1 then processing_failed [validationEvent] (world r1) memory
         else
           (case error request of
              None \<Rightarrow>
                validation_failed call subscribers env (eventId request) validationEvent
                  memory (world r1)
            | Some err \<Rightarrow>
                if err = [] \<or> length (trim err) = 0 then
                  validation_failed call subscribers env (eventId request) validationEvent
                    memory (world r1)
                else
                  process_workflow call subscribers env err (eventId request) validationEvent
                    memory (world r1)))"

text \<open>\<open>GET\<close> of the worker route: the agent's metadata and \<open>memory\<close>.\<close>

definition worker_GET :: "MemoryStore \<Rightarrow> response" where
  "worker_GET memory = \<lparr>status_code = 200, body = Worker_status getMetadata memory\<rparr>"


section \<open>The memory route (src/app/api/memory/route.ts)\<close>

text \<open>
  The body of \<open>POST\<close> is an object whose own properties are spread over the store:
  for each top-level field, either absent or the new value. \<open>statistics\<close> is replaced
  as a whole (the spread is shallow). Bodies with other keys, or with values of other
  types than the fields have, are not covered.
\<close>

record memory_updates =
  new_totalErrors :: "nat option"
  new_lastProcessed :: "jsstring option option"
  new_workflows :: "WorkflowRecord list option"
  new_statistics :: "statistics_record option"

text \<open>\<open>{ ...memoryStore, ...updates }\<close>\<close>

definition spread :: "MemoryStore \<Rightarrow> memory_updates \<Rightarrow> MemoryStore" where
  "spread store updates =
     \<lparr>totalErrors = (case new_totalErrors updates of None \<Rightarrow> totalErrors store | Some v \<Rightarrow> v),
      lastProcessed =
        (case new_lastProcessed updates of None \<Rightarrow> lastProcessed store | Some v \<Rightarrow> v),
      workflows = (case new_workflows updates of None \<Rightarrow> workflows store | Some v \<Rightarrow> v),
      statistics = (case new_statistics updates of None \<Rightarrow> statistics store | Some v \<Rightarrow> v)\<rparr>"

definition memory_GET :: "MemoryStore \<Rightarrow> response" where
  "memory_GET memoryStore = \<lparr>status_code = 200, body = Memory_snapshot memoryStore\<rparr>"

text \<open>
  \<open>POST\<close>: the new value of \<open>memoryStore\<close> and the response. The request body is
  \<open>None\<close> when \<open>request.json()\<close> rejects (the body is not JSON).
\<close>

definition memory_POST :: "memory_updates option \<Rightarrow> MemoryStore \<Rightarrow> MemoryStore \<times> response" where
  "memory_POST request memoryStore =
     (case request of
        None \<Rightarrow>
          (memoryStore,
           \<lparr>status_code = 500, body = Failure (js ''Failed to update memory'')\<rparr>)
      | Some updates \<Rightarrow>
          (let memoryStore' = spread memoryStore updates
           in (memoryStore', \<lparr>status_code = 200, body = Memory_success memoryStore'\<rparr>)))"

definition memory_DELETE :: "MemoryStore \<Rightarrow> MemoryStore \<times> response" where
  "memory_DELETE memoryStore =
     (let memoryStore' =
            \<lparr>totalErrors = 0, lastProcessed = None, workflows = [],
             statistics = \<lparr>errorTypes = Map.empty, severityCount = Map.empty,
                           averageProcessingTime = 0\<rparr>\<rparr>
      in (memoryStore', \<lparr>status_code = 200, body = Memory_success memoryStore'\<rparr>))"


section \<open>The event stream route (src/app/api/events/route.ts)\<close>

text \<open>
  What a client of \<open>GET /api/events\<close> is sent: the chunks enqueued on the controller of
  its stream. A chunk is the encoding of \<open>data: <JSON>\<close> or of the comment line
  \<open>: keepalive\<close>; the model keeps what was encoded.
\<close>

datatype frame = Connected_frame | Event_frame RealtimeEvent | Keepalive_frame

datatype stream_state = Readable | Closed

text \<open>
  One connection: the chunks enqueued so far, the state of its \<open>ReadableStream\<close>, and
  whether the interval set in \<open>start\<close> is still scheduled.
\<close>

record connection =
  frames :: "frame list"
  stream :: stream_state
  interval_active :: bool

text \<open>
  \<open>controller.enqueue(chunk)\<close> on the stream of connection \<open>cid\<close>: it throws a
  \<open>TypeError\<close> (\<open>None\<close>) unless the stream is readable.
\<close>

definition controller_enqueue :: "frame \<Rightarrow> nat \<Rightarrow> connection list \<Rightarrow> connection list option" where
  "controller_enqueue chunk cid cs =
     (if cid < length cs \<and> stream (cs ! cid) = Readable
      then Some (cs[cid := (cs ! cid)\<lparr>frames := frames (cs ! cid) @ [chunk]\<rparr>])
      else None)"

text \<open>
  The callback that \<open>start\<close> subscribes: it serialises the event and enqueues it. Each
  call of \<open>GET\<close> creates a new closure; it is identified by its connection.
\<close>

definition forward :: "(nat, RealtimeEvent, connection list) callbacks" where
  "forward cid event cs = controller_enqueue (Event_frame event) cid cs"

text \<open>
  The state of the server process: the subscriber set of the global \<open>realtimeEvents\<close>,
  the connections opened so far, the worker route's \<open>memory\<close> and the memory route's
  \<open>memoryStore\<close>.
\<close>

record server =
  subscribers :: "nat list"
  connections :: "connection list"
  memory :: MemoryStore
  memoryStore :: MemoryStore

definition initial_server :: server where
  "initial_server =
     \<lparr>subscribers = [], connections = [], memory = createMemoryStore,
      memoryStore = createMemoryStore\<rparr>"

text \<open>
  The function that \<open>start\<close> returns: \<open>clearInterval(interval); unsubscribe()\<close>.
\<close>

definition cleanup :: "nat \<Rightarrow> server \<Rightarrow> server" where
  "cleanup cid s =
     (let s1 = s\<lparr>connections :=
                   (connections s)[cid := (connections s ! cid)\<lparr>interval_active := False\<rparr>]\<rparr>
      in s1\<lparr>subscribers := unsubscribe cid (subscribers s1)\<rparr>)"

text \<open>
  \<open>start(controller)\<close>: enqueue the connection message, subscribe the forwarding
  callback, set the interval, and return the cleanup function.
\<close>

definition events_start :: "nat \<Rightarrow> server \<Rightarrow> server \<times> (server \<Rightarrow> server)" where
  "events_start cid s =
     (case controller_enqueue Connected_frame cid (connections s) of
        None \<Rightarrow> (s, id)
      | Some cs \<Rightarrow>
          (let s1 = s\<lparr>connections := cs\<rparr>;
               s2 = s1\<lparr>subscribers := subscribe cid (subscribers s1)\<rparr>;
               s3 = s2\<lparr>connections :=
                         (connections s2)[cid := (connections s2 ! cid)\<lparr>interval_active := True\<rparr>]\<rparr>
           in (s3, cleanup cid)))"

text \<open>
  The underlying source object given to \<open>new ReadableStream\<close>, by its members. The
  platform (the Streams standard) calls \<open>start\<close> once while constructing the stream and
  uses what it returns only as a promise to wait for; when the consumer goes away it
  closes the stream and calls the member \<open>cancel\<close>, if the object has one.
\<close>

record underlying_source =
  start :: "server \<Rightarrow> server \<times> (server \<Rightarrow> server)"
  cancel :: "(server \<Rightarrow> server) option"

definition new_ReadableStream :: "underlying_source \<Rightarrow> server \<Rightarrow> server" where
  "new_ReadableStream source s = fst (start source s)"

definition ReadableStream_cancel :: "underlying_source \<Rightarrow> nat \<Rightarrow> server \<Rightarrow> server" where
  "ReadableStream_cancel source cid s =
     (let s1 = s\<lparr>connections := (connections s)[cid := (connections s ! cid)\<lparr>stream := Closed\<rparr>]\<rparr>
      in case cancel source of None \<Rightarrow> s1 | Some f \<Rightarrow> f s1)"

text \<open>The object literal of the route has the single member \<open>start\<close>.\<close>

definition events_source :: "nat \<Rightarrow> underlying_source" where
  "events_source cid = \<lparr>start = events_start cid, cancel = None\<rparr>"

text \<open>\<open>GET\<close>: a new connection, numbered by its position, and its stream.\<close>

definition events_GET :: "server \<Rightarrow> server \<times> nat" where
  "events_GET s =
     (let cid = length (connections s);
          s0 = s\<lparr>connections :=
                   connections s @ [\<lparr>frames = [], stream = Readable, interval_active = False\<rparr>]\<rparr>
      in (new_ReadableStream (events_source cid) s0, cid))"

text \<open>The client of connection \<open>cid\<close> disconnects: its stream is cancelled.\<close>

definition client_disconnect :: "nat \<Rightarrow> server \<Rightarrow> server" where
  "client_disconnect cid s = ReadableStream_cancel (events_source cid) cid s"

text \<open>
  The interval fires for connection \<open>cid\<close>, when it is still scheduled: a keep-alive
  comment is enqueued; the \<open>TypeError\<close> of a closed stream is not caught by anyone.
\<close>

definition interval_tick :: "nat \<Rightarrow> server \<Rightarrow> server" where
  "interval_tick cid s =
     (if cid < length (connections s) \<and> interval_active (connections s ! cid) then
        (case controller_enqueue Keepalive_frame cid (connections s) of
           None \<Rightarrow> s
         | Some cs \<Rightarrow> s\<lparr>connections := cs\<rparr>)
      else s)"


section \<open>The server as a whole\<close>

text \<open>The worker's \<open>POST\<close> on the server state: the subscribers are the connections' callbacks.\<close>

definition server_worker_POST :: "worker_env \<Rightarrow> worker_body \<Rightarrow> server \<Rightarrow> server \<times> response" where
  "server_worker_POST env request s =
     (let r = worker_POST forward (subscribers s) env request (memory s) (connections s)
      in (s\<lparr>connections := world_after r, memory := memory_after r\<rparr>, response r))"

datatype request =
    Worker_POST worker_env worker_body
  | Worker_GET
  | Events_GET
  | Client_disconnect nat
  | Interval_tick nat
  | Memory_GET
  | Memory_POST "memory_updates option"
  | Memory_DELETE

fun handle :: "request \<Rightarrow> server \<Rightarrow> server" where
  "handle (Worker_POST env request) s = fst (server_worker_POST env request s)"
| "handle Worker_GET s = s"
| "handle Events_GET s = fst (events_GET s)"
| "handle (Client_disconnect cid) s = client_disconnect cid s"
| "handle (Interval_tick cid) s = interval_tick cid s"
| "handle Memory_GET s = s"
| "handle (Memory_POST updates) s = s\<lparr>memoryStore := fst (memory_POST updates (memoryStore s))\<rparr>"
| "handle Memory_DELETE s = s\<lparr>memoryStore := fst (memory_DELETE (memoryStore s))\<rparr>"

text \<open>The responses of the handlers that answer with a snapshot.\<close>

fun respond :: "request \<Rightarrow> server \<Rightarrow> response option" where
  "respond (Worker_POST env request) s = Some (snd (server_worker_POST env request s))"
| "respond Worker_GET s = Some (worker_GET (memory s))"
| "respond Memory_GET s = Some (memory_GET (memoryStore s))"
| "respond (Memory_POST updates) s = Some (snd (memory_POST updates (memoryStore s)))"
| "respond Memory_DELETE s = Some (snd (memory_DELETE (memoryStore s)))"
| "respond _ s = None"

text \<open>Requests handled one after the other, oldest first.\<close>

fun serve :: "request list \<Rightarrow> server \<Rightarrow> server" where
  "serve [] s = s"
| "serve (r # rs) s = serve rs (handle r s)"


section \<open>What is published and what is received\<close>

text \<open>
  The callbacks of a list called one after the other on an event, each in the world
  the one before it left: the world they leave when every one of them returns
  normally, and \<open>None\<close> when one of them throws at its turn. This says what the
  callbacks do by themselves; it does not refer to \<open>emit\<close>.
\<close>

fun returns_all :: "('c, 'e, 'w) callbacks \<Rightarrow> 'c list \<Rightarrow> 'e \<Rightarrow> 'w \<Rightarrow> 'w option" where
  "returns_all call [] e w = Some w"
| "returns_all call (c # cs) e w =
     (case call c e w of None \<Rightarrow> None | Some w' \<Rightarrow> returns_all call cs e w')"

text \<open>The same for a list of events, one event after the other.\<close>

fun returns_all_events ::
  "('c, 'e, 'w) callbacks \<Rightarrow> 'c list \<Rightarrow> 'e list \<Rightarrow> 'w \<Rightarrow> 'w option" where
  "returns_all_events call cs [] w = Some w"
| "returns_all_events call cs (e # es) w =
     (case returns_all call cs e w of
        None \<Rightarrow> None
      | Some w' \<Rightarrow> returns_all_events call cs es w')"

text \<open>The events that the handling of a request passes to \<open>emit\<close>, in order.\<close>

fun publishes :: "request \<Rightarrow> server \<Rightarrow> RealtimeEvent list" where
  "publishes (Worker_POST env request) s =
     published (worker_POST forward (subscribers s) env request (memory s) (connections s))"
| "publishes _ s = []"

fun published_during :: "request list \<Rightarrow> server \<Rightarrow> RealtimeEvent list" where
  "published_during [] s = []"
| "published_during (r # rs) s = publishes r s @ published_during rs (handle r s)"

text \<open>
  The workflow record that the handling of a request puts into \<open>memory\<close>, if any: the
  writes come after the agent call and right before the \<open>memory_update\<close> event.
\<close>

fun commits :: "request \<Rightarrow> server \<Rightarrow> WorkflowRecord list" where
  "commits (Worker_POST env request) s =
     (case analyzeError env of
        Rejects \<Rightarrow> []
      | Resolves errorRecord \<Rightarrow>
          if T_memory_update \<in> set (map event_type (publishes (Worker_POST env request) s))
          then [workflowRecord_of (eventId request) errorRecord (date_record env)]
          else [])"
| "commits _ s = []"

text \<open>The records put into \<open>memory\<close> while a list of requests is handled, newest first.\<close>

fun committed_during :: "request list \<Rightarrow> server \<Rightarrow> WorkflowRecord list" where
  "committed_during [] s = []"
| "committed_during (r # rs) s = committed_during rs (handle r s) @ commits r s"

text \<open>
  Between two states of the connections: no connection is lost, and each one has kept
  its chunks and received only chunks of \<open>F\<close> after them.
\<close>

definition received_only :: "frame set \<Rightarrow> connection list \<Rightarrow> connection list \<Rightarrow> bool" where
  "received_only F cs cs' =
     (length cs \<le> length cs' \<and>
      (\<forall>i<length cs. \<exists>fs. frames (cs' ! i) = frames (cs ! i) @ fs \<and> set fs \<subseteq> F))"


section \<open>Example inputs\<close>

text \<open>
  Callbacks whose world is the list of the callbacks that returned normally, in the
  order of their return: callbacks that never throw, callbacks of which number 0
  always throws, and callbacks that throw on a \<open>memory_update\<close> event.
\<close>

definition never_throws :: "(nat, RealtimeEvent, nat list) callbacks" where
  "never_throws c e w = Some (w @ [c])"

definition first_throws :: "(nat, RealtimeEvent, nat list) callbacks" where
  "first_throws c e w = (if c = 0 then None else Some (w @ [c]))"

definition throws_on_memory_update :: "(nat, RealtimeEvent, nat list) callbacks" where
  "throws_on_memory_update c e w =
     (if event_type e = T_memory_update then None else Some (w @ [c]))"

definition example_event :: RealtimeEvent where
  "example_event =
     \<lparr>event_id = js ''evt_1_validation'', event_type = T_validation,
      message = js ''Validating error input...'', timestamp = 1000,
      status = S_processing, data = None\<rparr>"

text \<open>A request with a proper error text, and what the agent returns for it.\<close>

definition example_request :: worker_body where
  "example_request = \<lparr>error = Some (js ''TypeError: x is undefined''), eventId = js ''evt_1''\<rparr>"

definition example_record :: ErrorRecord where
  "example_record =
     \<lparr>record_id = js ''evt_1'', record_error = js ''TypeError: x is undefined'',
      analysis =
        Some \<lparr>analysis_type = js ''Type Error'', category = js ''Type'',
              analysis_rootCause = js ''Detected type issue in the system'',
              analysis_suggestions =
                [js ''Review error logs for additional context'',
                 js ''Check recent code changes'', js ''Check type definitions'',
                 js ''Validate input data types''],
              relatedPatterns = [js ''Type''], analysis_confidence = 60\<rparr>,
      record_timestamp = js ''2025-01-01T00:00:01.000Z'', record_severity = js ''high''\<rparr>"

definition example_env :: worker_env where
  "example_env =
     \<lparr>date_validation = 1000, date_error = 1500, date_workflow = 1500,
      analyzeError = Resolves example_record,
      date_record = js ''2025-01-01T00:00:01.000Z'',
      date_memory = 2000, date_completed = 2000\<rparr>"

text \<open>Requests whose error text is empty, and made of a space and a tab.\<close>

definition empty_request :: worker_body where
  "empty_request = \<lparr>error = Some [], eventId = js ''evt_2''\<rparr>"

definition blank_request :: worker_body where
  "blank_request = \<lparr>error = Some [0x20, 0x09], eventId = js ''evt_3''\<rparr>"

text \<open>An update of the memory route that names one field.\<close>

definition example_updates :: memory_updates where
  "example_updates =
     \<lparr>new_totalErrors = Some 5, new_lastProcessed = None, new_workflows = None,
      new_statistics = None\<rparr>"

text \<open>The server with one client connected to the event stream.\<close>

definition live_server :: server where
  "live_server = serve [Events_GET] initial_server"

text \<open>The server after one client has connected to the event stream and gone away.\<close>

definition stale_server :: server where
  "stale_server = serve [Events_GET, Client_disconnect 0] initial_server"


section \<open>Properties of \<open>emit\<close> and \<open>trim\<close>\<close>

lemma emit_invoked_prefix: "prefix (invoked (emit call subs e w)) subs"
  by (induction subs arbitrary: w) (auto split: option.splits simp: Let_def)

lemma emit_not_raised_all:
  "\<not> raised (emit call subs e w) \<Longrightarrow> invoked (emit call subs e w) = subs"
  by (induction subs arbitrary: w) (auto split: option.splits simp: Let_def)

lemma emit_raised_last:
  "raised (emit call subs e w) \<Longrightarrow>
     invoked (emit call subs e w) \<noteq> [] \<and>
     (\<exists>w'. call (last (invoked (emit call subs e w))) e w' = None)"
  by (induction subs arbitrary: w) (auto split: option.splits simp: Let_def)

lemma emit_never_raise:
  "\<forall>c\<in>set subs. \<forall>w. call c e w \<noteq> None \<Longrightarrow> \<not> raised (emit call subs e w)"
  by (induction subs arbitrary: w) (auto split: option.splits simp: Let_def)

text \<open>\<open>emit\<close> against what the callbacks do by themselves.\<close>

lemma emit_returns_all:
  "returns_all call subs e w =
     (if raised (emit call subs e w) then None else Some (world (emit call subs e w)))"
  by (induction subs arbitrary: w) (auto split: option.splits simp: Let_def)

lemma emit_all_return:
  "returns_all call subs e w = Some w' \<Longrightarrow>
     emit call subs e w = \<lparr>invoked = subs, world = w', raised = False\<rparr>"
  by (induction subs arbitrary: w) (auto split: option.splits simp: Let_def)

lemma emit_throw_at_turn:
  "returns_all call pre e w = Some w1 \<Longrightarrow> call c e w1 = None \<Longrightarrow>
     emit call (pre @ c # post) e w = \<lparr>invoked = pre @ [c], world = w1, raised = True\<rparr>"
  by (induction pre arbitrary: w) (auto split: option.splits simp: Let_def)

lemma returns_all_None:
  "returns_all call subs e w = None \<Longrightarrow>
     \<exists>pre c post w1. subs = pre @ c # post \<and> returns_all call pre e w = Some w1 \<and>
        call c e w1 = None"
proof (induction subs arbitrary: w)
  case Nil
  then show ?case by simp
next
  case (Cons a subs)
  show ?case
  proof (cases "call a e w")
    case None
    then have "a # subs = [] @ a # subs \<and> returns_all call [] e w = Some w \<and>
        call a e w = None"
      by simp
    then show ?thesis by blast
  next
    case (Some w')
    with Cons.prems have "returns_all call subs e w' = None" by simp
    from Cons.IH [OF this] obtain pre c post w1 where
      "subs = pre @ c # post" "returns_all call pre e w' = Some w1" "call c e w1 = None"
      by blast
    then have "a # subs = (a # pre) @ c # post \<and>
        returns_all call (a # pre) e w = Some w1 \<and> call c e w1 = None"
      using Some by simp
    then show ?thesis by blast
  qed
qed

text \<open>A text is trimmed to nothing exactly when it consists of white space only.\<close>

lemma trim_empty_iff: "length (trim s) = 0 \<longleftrightarrow> (\<forall>c\<in>set s. is_white_space c)"
proof
  assume "length (trim s) = 0"
  then have "dropWhile is_white_space (rev (dropWhile is_white_space s)) = []"
    by (simp add: trim_def)
  then have all: "\<forall>c\<in>set (dropWhile is_white_space s). is_white_space c"
    by (simp add: dropWhile_eq_Nil_conv)
  have "dropWhile is_white_space s = []"
  proof (rule ccontr)
    assume ne: "dropWhile is_white_space s \<noteq> []"
    then have "\<not> is_white_space (hd (dropWhile is_white_space s))"
      by (rule hd_dropWhile)
    moreover have "hd (dropWhile is_white_space s) \<in> set (dropWhile is_white_space s)"
      using ne by simp
    ultimately show False using all by blast
  qed
  then show "\<forall>c\<in>set s. is_white_space c"
    by (simp add: dropWhile_eq_Nil_conv)
next
  assume "\<forall>c\<in>set s. is_white_space c"
  then have "dropWhile is_white_space s = []"
    by (simp add: dropWhile_eq_Nil_conv)
  then show "length (trim s) = 0"
    by (simp add: trim_def del: dropWhile_eq_Nil_conv)
qed

lemma valid_not_rejected:
  "\<exists>c\<in>set err. \<not> is_white_space c \<Longrightarrow> \<not> (err = [] \<or> length (trim err) = 0)"
  using trim_empty_iff [of err] by auto

lemma blank_rejected:
  "\<forall>c\<in>set s. is_white_space c \<Longrightarrow> s = [] \<or> length (trim s) = 0"
  using trim_empty_iff [of s] by auto


section \<open>Properties of the worker's \<open>POST\<close>\<close>

lemmas worker_defs =
  worker_POST_def validation_failed_def process_workflow_def processing_failed_def Let_def

lemma published_types_prefix:
  assumes "error request = Some err" and "\<exists>c\<in>set err. \<not> is_white_space c"
  shows "prefix (map event_type (published (worker_POST call subs env request mem w)))
           [T_validation, T_workflow, T_memory_update, T_completed]"
  using assms(1) valid_not_rejected [OF assms(2)]
  by (simp add: worker_defs split: analyzeError_outcome.splits)

lemma published_ids_prefix:
  "e \<in> set (published (worker_POST call subs env request mem w)) \<Longrightarrow>
     prefix (eventId request) (event_id e)"
  by (auto simp: worker_defs split: option.splits analyzeError_outcome.splits if_splits)

lemma published_four:
  assumes "error request = Some err" and "\<exists>c\<in>set err. \<not> is_white_space c"
    and "analyzeError env = Resolves errorRecord"
    and "\<forall>c\<in>set subs. \<forall>e w. call c e w \<noteq> None"
  shows "map event_type (published (worker_POST call subs env request mem w)) =
           [T_validation, T_workflow, T_memory_update, T_completed] \<and>
         status_code (response (worker_POST call subs env request mem w)) = 200"
proof -
  have nr: "\<not> raised (emit call subs e w')" for e w'
    using assms(4) by (intro emit_never_raise) blast
  show ?thesis
    using assms(1,3) valid_not_rejected [OF assms(2)]
    by (simp add: worker_defs nr)
qed

lemma rejected_types:
  assumes "error request = None \<or>
           (\<exists>s. error request = Some s \<and> (\<forall>c\<in>set s. is_white_space c))"
  shows "\<forall>e\<in>set (published (worker_POST call subs env request mem w)).
           event_type e = T_validation"
  using assms blank_rejected
  by (auto simp: worker_defs split: if_splits)

lemma rejected_memory:
  assumes "error request = None \<or>
           (\<exists>s. error request = Some s \<and> (\<forall>c\<in>set s. is_white_space c))"
  shows "memory_after (worker_POST call subs env request mem w) = mem"
  using assms blank_rejected
  by (auto simp: worker_defs split: if_splits)

lemma rejected_two_events:
  assumes "error request = None \<or>
           (\<exists>s. error request = Some s \<and> (\<forall>c\<in>set s. is_white_space c))"
    and "\<forall>c\<in>set subs. \<forall>e w. call c e w \<noteq> None"
  shows "map status (published (worker_POST call subs env request mem w)) =
           [S_processing, S_error] \<and>
         status_code (response (worker_POST call subs env request mem w)) = 400"
proof -
  have nr: "\<not> raised (emit call subs e w')" for e w'
    using assms(2) by (intro emit_never_raise) blast
  show ?thesis
    using assms(1) blank_rejected
    by (auto simp: worker_defs nr)
qed

text \<open>
  The handler against what the callbacks do on the events it publishes: when they all
  return, the handler goes to its end; when one throws, it ends in its \<open>catch\<close> block.
\<close>

lemma quiet_four:
  assumes "error request = Some err" and "\<exists>c\<in>set err. \<not> is_white_space c"
    and "analyzeError env = Resolves errorRecord"
    and "returns_all_events call subs (published (worker_POST call subs env request mem w)) w
           \<noteq> None"
  shows "map event_type (published (worker_POST call subs env request mem w)) =
           [T_validation, T_workflow, T_memory_update, T_completed] \<and>
         status_code (response (worker_POST call subs env request mem w)) = 200"
  using assms(1,3,4) valid_not_rejected [OF assms(2)]
  by (simp add: worker_defs emit_returns_all split: if_splits)

lemma loud_500:
  assumes "returns_all_events call subs (published (worker_POST call subs env request mem w)) w
             = None"
  shows "status_code (response (worker_POST call subs env request mem w)) = 500"
  using assms
  by (auto simp: worker_defs emit_returns_all
      split: if_splits option.splits analyzeError_outcome.splits)

lemma quiet_two:
  assumes "error request = None \<or>
           (\<exists>s. error request = Some s \<and> (\<forall>c\<in>set s. is_white_space c))"
    and "returns_all_events call subs (published (worker_POST call subs env request mem w)) w
           \<noteq> None"
  shows "map status (published (worker_POST call subs env request mem w)) =
           [S_processing, S_error] \<and>
         status_code (response (worker_POST call subs env request mem w)) = 400"
  using assms blank_rejected
  by (auto simp: worker_defs emit_returns_all split: if_splits)

lemma failure_memory:
  assumes "error request = Some err" and "\<exists>c\<in>set err. \<not> is_white_space c"
    and "status_code (response (worker_POST call subs env request mem w)) \<noteq> 200"
  shows "(T_memory_update \<notin> event_type ` set (published (worker_POST call subs env request mem w)) \<and>
            memory_after (worker_POST call subs env request mem w) = mem) \<or>
         (T_memory_update \<in> event_type ` set (published (worker_POST call subs env request mem w)) \<and>
          (\<exists>errorRecord. analyzeError env = Resolves errorRecord \<and>
             memory_after (worker_POST call subs env request mem w) =
               update_memory mem err
                 (workflowRecord_of (eventId request) errorRecord (date_record env)) errorRecord))"
  using assms(1,3) valid_not_rejected [OF assms(2)]
  by (simp add: worker_defs split: analyzeError_outcome.splits if_splits)

lemma success_memory:
  assumes "status_code (response (worker_POST call subs env request mem w)) = 200"
  shows "\<exists>err errorRecord. error request = Some err \<and> analyzeError env = Resolves errorRecord \<and>
           memory_after (worker_POST call subs env request mem w) =
             update_memory mem err
               (workflowRecord_of (eventId request) errorRecord (date_record env)) errorRecord"
  using assms
  by (simp add: worker_defs split: option.splits analyzeError_outcome.splits if_splits)

lemma memory_after_cases:
  "memory_after (worker_POST call subs env request mem w) = mem \<or>
   (\<exists>err workflowRecord errorRecord.
      memory_after (worker_POST call subs env request mem w) =
        update_memory mem err workflowRecord errorRecord)"
  by (simp add: worker_defs split: option.splits analyzeError_outcome.splits if_splits) blast

lemma update_memory_totalErrors:
  "totalErrors (update_memory mem err workflowRecord errorRecord) = totalErrors mem + 1"
  by (simp add: update_memory_def Let_def)

lemma update_memory_workflows:
  "workflows (update_memory mem err workflowRecord errorRecord) =
     take 10 (workflowRecord # workflows mem)"
  by (simp add: update_memory_def Let_def)

text \<open>
  The writes of the handler are the three operations of \<open>memoryOperations\<close>, one after
  the other.
\<close>

lemma update_memory_addWorkflow:
  "update_memory mem err (workflowRecord_of evId errorRecord now) errorRecord =
     addWorkflow (updateLastProcessed (incrementErrors mem) err)
       (workflowRecord_of evId errorRecord now)"
  by (simp add: update_memory_def addWorkflow_def updateLastProcessed_def incrementErrors_def
      workflowRecord_of_def Let_def)

lemma stale_server_eval:
  "stale_server =
     \<lparr>subscribers = [0],
      connections = [\<lparr>frames = [Connected_frame], stream = Closed, interval_active = True\<rparr>],
      memory = createMemoryStore, memoryStore = createMemoryStore\<rparr>"
  by (simp add: stale_server_def initial_server_def events_GET_def new_ReadableStream_def
      events_source_def events_start_def controller_enqueue_def subscribe_def
      client_disconnect_def ReadableStream_cancel_def Let_def)


section \<open>Properties of subscriptions and connections\<close>

lemma unsubscribe_filter: "unsubscribe cb subs = filter (\<lambda>c. c \<noteq> cb) subs"
  by (induction subs) (auto simp: unsubscribe_def)

lemma unsubscribe_idem: "unsubscribe cb (unsubscribe cb subs) = unsubscribe cb subs"
  by (simp add: unsubscribe_def)

lemma emit_invoked_subset: "set (invoked (emit call subs e w)) \<subseteq> set subs"
  using emit_invoked_prefix [of call subs e w] by (auto dest: set_mono_prefix)

lemma events_GET_frames:
  "events_GET s = (s', cid) \<Longrightarrow>
     cid = length (connections s) \<and> frames (connections s' ! cid) = [Connected_frame] \<and>
     stream (connections s' ! cid) = Readable \<and> interval_active (connections s' ! cid) \<and>
     cid \<in> set (subscribers s') \<and> length (connections s') = Suc cid"
  by (auto simp: events_GET_def new_ReadableStream_def events_source_def events_start_def
      controller_enqueue_def subscribe_def Let_def nth_append)

text \<open>
  Whatever server a client connects to, its disconnection leaves its callback
  subscribed and its interval scheduled; the function returned by \<open>start\<close> would have
  removed both.
\<close>

lemma disconnect_keeps_subscription:
  "events_GET s = (s', cid) \<Longrightarrow>
     cid \<in> set (subscribers (client_disconnect cid s')) \<and>
     interval_active (connections (client_disconnect cid s') ! cid) \<and>
     stream (connections (client_disconnect cid s') ! cid) = Closed"
  using events_GET_frames [of s s' cid]
  by (auto simp: client_disconnect_def ReadableStream_cancel_def events_source_def Let_def)

lemma cleanup_removes_both:
  "events_GET s = (s', cid) \<Longrightarrow>
     cid \<notin> set (subscribers (cleanup cid s')) \<and>
     \<not> interval_active (connections (cleanup cid s') ! cid)"
  using events_GET_frames [of s s' cid]
  by (auto simp: cleanup_def unsubscribe_def Let_def)

text \<open>
  The forwarding callbacks of connections whose streams are readable all return, on
  any events, and leave the streams readable.
\<close>

lemma controller_enqueue_readable:
  assumes "c < length cs" and "stream (cs ! c) = Readable"
  shows "\<exists>cs'. controller_enqueue chunk c cs = Some cs' \<and> length cs' = length cs \<and>
           (\<forall>i<length cs. stream (cs' ! i) = stream (cs ! i))"
  using assms by (auto simp: controller_enqueue_def nth_list_update)

lemma returns_all_forward:
  "\<forall>c\<in>set subs. c < length cs \<and> stream (cs ! c) = Readable \<Longrightarrow>
     \<exists>cs'. returns_all forward subs e cs = Some cs' \<and> length cs' = length cs \<and>
           (\<forall>i<length cs. stream (cs' ! i) = stream (cs ! i))"
proof (induction subs arbitrary: cs)
  case Nil
  then show ?case by simp
next
  case (Cons a subs)
  from Cons.prems have "a < length cs" "stream (cs ! a) = Readable"
    by simp_all
  from controller_enqueue_readable [OF this, of "Event_frame e"] obtain cs1 where
    c1: "forward a e cs = Some cs1" "length cs1 = length cs"
      "\<forall>i<length cs. stream (cs1 ! i) = stream (cs ! i)"
    by (auto simp: forward_def)
  have "\<forall>c\<in>set subs. c < length cs1 \<and> stream (cs1 ! c) = Readable"
    using Cons.prems c1 by auto
  from Cons.IH [OF this] obtain cs' where
    "returns_all forward subs e cs1 = Some cs'" "length cs' = length cs1"
    "\<forall>i<length cs1. stream (cs' ! i) = stream (cs1 ! i)"
    by blast
  with c1 show ?case by simp
qed

lemma returns_all_events_forward:
  "\<forall>c\<in>set subs. c < length cs \<and> stream (cs ! c) = Readable \<Longrightarrow>
     returns_all_events forward subs es cs \<noteq> None"
proof (induction es arbitrary: cs)
  case Nil
  show ?case by simp
next
  case (Cons e es)
  from returns_all_forward [OF Cons.prems, of e] obtain cs' where
    c: "returns_all forward subs e cs = Some cs'" "length cs' = length cs"
      "\<forall>i<length cs. stream (cs' ! i) = stream (cs ! i)"
    by blast
  have "\<forall>c\<in>set subs. c < length cs' \<and> stream (cs' ! c) = Readable"
    using Cons.prems c by auto
  from Cons.IH [OF this] c(1) show ?case by simp
qed

lemma live_server_eval:
  "live_server =
     \<lparr>subscribers = [0],
      connections = [\<lparr>frames = [Connected_frame], stream = Readable, interval_active = True\<rparr>],
      memory = createMemoryStore, memoryStore = createMemoryStore\<rparr>"
  by (simp add: live_server_def initial_server_def events_GET_def new_ReadableStream_def
      events_source_def events_start_def controller_enqueue_def subscribe_def Let_def)

lemma live_server_readable:
  "\<forall>c\<in>set (subscribers live_server).
      c < length (connections live_server) \<and> stream (connections live_server ! c) = Readable"
  by (simp add: live_server_eval)

lemma received_only_refl: "received_only F cs cs"
  by (simp add: received_only_def)

lemma received_only_mono: "received_only F cs cs' \<Longrightarrow> F \<subseteq> G \<Longrightarrow> received_only G cs cs'"
  unfolding received_only_def by (meson order_trans)

lemma received_only_trans:
  assumes "received_only F cs cs'" and "received_only G cs' cs''"
  shows "received_only (F \<union> G) cs cs''"
  unfolding received_only_def
proof (intro conjI allI impI)
  show "length cs \<le> length cs''"
    using assms by (simp add: received_only_def)
next
  fix i assume i: "i < length cs"
  then obtain fs where fs: "frames (cs' ! i) = frames (cs ! i) @ fs" "set fs \<subseteq> F"
    using assms(1) by (auto simp: received_only_def)
  have "i < length cs'"
    using i assms(1) by (simp add: received_only_def)
  then obtain gs where gs: "frames (cs'' ! i) = frames (cs' ! i) @ gs" "set gs \<subseteq> G"
    using assms(2) by (auto simp: received_only_def)
  have "frames (cs'' ! i) = frames (cs ! i) @ (fs @ gs) \<and> set (fs @ gs) \<subseteq> F \<union> G"
    using fs gs by auto
  then show "\<exists>hs. frames (cs'' ! i) = frames (cs ! i) @ hs \<and> set hs \<subseteq> F \<union> G"
    by blast
qed

lemma controller_enqueue_received:
  "controller_enqueue chunk cid cs = Some cs' \<Longrightarrow> received_only {chunk} cs cs'"
  by (auto simp: controller_enqueue_def received_only_def nth_list_update split: if_splits)

lemma emit_forward_received:
  "received_only {Event_frame e} cs (world (emit forward subs e cs))"
proof (induction subs arbitrary: cs)
  case Nil
  show ?case by (simp add: received_only_refl)
next
  case (Cons c subs)
  show ?case
  proof (cases "forward c e cs")
    case None
    then show ?thesis by (simp add: received_only_refl)
  next
    case (Some cs')
    have "received_only {Event_frame e} cs cs'"
      using Some by (simp add: forward_def controller_enqueue_received)
    from received_only_trans [OF this Cons.IH [of cs']]
    show ?thesis using Some by (simp add: Let_def)
  qed
qed

text \<open>The callbacks' world after \<open>POST\<close> is that of its calls of \<open>emit\<close>, one after the other.\<close>

lemma world_after_fold:
  "world_after (worker_POST call subs env request mem w) =
     foldl (\<lambda>w e. world (emit call subs e w)) w
       (published (worker_POST call subs env request mem w))"
  by (simp add: worker_defs split: option.splits analyzeError_outcome.splits)

lemma fold_emit_received:
  "received_only F cs cs' \<Longrightarrow>
     received_only (F \<union> Event_frame ` set es) cs
       (foldl (\<lambda>w e. world (emit forward subs e w)) cs' es)"
proof (induction es arbitrary: F cs')
  case Nil
  then show ?case by simp
next
  case (Cons e es)
  have "received_only (F \<union> {Event_frame e}) cs (world (emit forward subs e cs'))"
    by (rule received_only_trans [OF Cons.prems emit_forward_received])
  from Cons.IH [OF this] show ?case
    by (simp add: Un_assoc)
qed

lemma worker_POST_received:
  "received_only (Event_frame ` set (published (worker_POST forward subs env request mem cs)))
     cs (world_after (worker_POST forward subs env request mem cs))"
  using fold_emit_received [OF received_only_refl, where F = "{}" and cs = cs and subs = subs
      and es = "published (worker_POST forward subs env request mem cs)"]
  by (simp add: world_after_fold [symmetric])

lemma list_update_received:
  assumes "frames c = frames (cs ! cid)"
  shows "received_only F cs (cs[cid := c])"
proof -
  have "frames (cs[cid := c] ! i) = frames (cs ! i) @ []" if "i < length cs" for i
    using that assms by (cases "i = cid") simp_all
  then show ?thesis
    unfolding received_only_def by (metis empty_set empty_subsetI length_list_update order_refl)
qed

lemma handle_received:
  "received_only (insert Keepalive_frame (Event_frame ` set (publishes r s)))
     (connections s) (connections (handle r s))"
proof (cases r)
  case (Worker_POST env request)
  show ?thesis
    using worker_POST_received [of "subscribers s" env request "memory s" "connections s"]
    by (auto simp: Worker_POST server_worker_POST_def Let_def elim: received_only_mono)
next
  case Events_GET
  have "received_only {} (connections s) (connections (fst (events_GET s)))"
    by (auto simp: events_GET_def new_ReadableStream_def events_source_def events_start_def
        controller_enqueue_def Let_def received_only_def nth_append nth_list_update)
  then show ?thesis
    by (auto simp: Events_GET elim: received_only_mono)
next
  case (Client_disconnect cid)
  show ?thesis
    by (simp add: Client_disconnect client_disconnect_def ReadableStream_cancel_def
        events_source_def Let_def list_update_received)
next
  case (Interval_tick cid)
  show ?thesis
    using controller_enqueue_received [of Keepalive_frame cid "connections s"]
    by (auto simp: Interval_tick interval_tick_def received_only_refl split: option.splits
        elim: received_only_mono)
qed (simp_all add: received_only_refl)

lemma serve_received:
  "received_only (insert Keepalive_frame (Event_frame ` set (published_during rs s)))
     (connections s) (connections (serve rs s))"
proof (induction rs arbitrary: s)
  case Nil
  show ?case by (simp add: received_only_refl)
next
  case (Cons r rs)
  from received_only_trans [OF handle_received [of r s] Cons.IH [of "handle r s"]]
  show ?case
    by (auto elim!: received_only_mono)
qed


section \<open>Properties of the workflow list\<close>

lemma commit_published:
  "T_memory_update \<in> set (map event_type (published (worker_POST call subs env request mem w))) \<Longrightarrow>
     \<exists>err errorRecord. error request = Some err \<and> analyzeError env = Resolves errorRecord \<and>
       memory_after (worker_POST call subs env request mem w) =
         update_memory mem err
           (workflowRecord_of (eventId request) errorRecord (date_record env)) errorRecord"
  by (auto simp: worker_defs split: option.splits analyzeError_outcome.splits if_splits)

lemma no_commit_unpublished:
  "T_memory_update \<notin> set (map event_type (published (worker_POST call subs env request mem w))) \<Longrightarrow>
     memory_after (worker_POST call subs env request mem w) = mem"
  by (auto simp: worker_defs split: option.splits analyzeError_outcome.splits if_splits)

lemma events_GET_memory: "memory (fst (events_GET s)) = memory s"
  by (simp add: events_GET_def new_ReadableStream_def events_source_def events_start_def
      Let_def split: option.splits)

lemma client_disconnect_memory: "memory (client_disconnect cid s) = memory s"
  by (simp add: client_disconnect_def ReadableStream_cancel_def events_source_def Let_def)

lemma interval_tick_memory: "memory (interval_tick cid s) = memory s"
  by (simp add: interval_tick_def split: option.splits)

lemma handle_memory_cases:
  "memory (handle r s) = memory s \<or>
   (\<exists>err workflowRecord errorRecord.
      memory (handle r s) = update_memory (memory s) err workflowRecord errorRecord)"
proof (cases r)
  case (Worker_POST env request)
  show ?thesis
    using memory_after_cases [of forward "subscribers s" env request "memory s" "connections s"]
    by (simp add: Worker_POST server_worker_POST_def Let_def)
qed (simp_all add: events_GET_memory client_disconnect_memory interval_tick_memory)

lemma handle_workflows:
  assumes "length (workflows (memory s)) \<le> 10"
  shows "workflows (memory (handle r s)) = take 10 (commits r s @ workflows (memory s))"
proof (cases r)
  case (Worker_POST env request)
  let ?r = "worker_POST forward (subscribers s) env request (memory s) (connections s)"
  show ?thesis
  proof (cases "T_memory_update \<in> set (map event_type (published ?r))")
    case True
    from commit_published [OF True] obtain err errorRecord where
      "analyzeError env = Resolves errorRecord"
      "memory_after ?r = update_memory (memory s) err
         (workflowRecord_of (eventId request) errorRecord (date_record env)) errorRecord"
      by blast
    then show ?thesis
      using True by (simp add: Worker_POST server_worker_POST_def Let_def update_memory_workflows)
  next
    case False
    from no_commit_unpublished [OF False] assms show ?thesis
      using False
      by (simp add: Worker_POST server_worker_POST_def Let_def split: analyzeError_outcome.splits)
  qed
qed (use assms in \<open>simp_all add: events_GET_memory client_disconnect_memory interval_tick_memory\<close>)

lemma handle_workflows_bound:
  "length (workflows (memory s)) \<le> 10 \<Longrightarrow> length (workflows (memory (handle r s))) \<le> 10"
  by (simp add: handle_workflows)

lemma serve_workflows_bound:
  "length (workflows (memory s)) \<le> 10 \<Longrightarrow> length (workflows (memory (serve rs s))) \<le> 10"
  by (induction rs arbitrary: s) (simp_all add: handle_workflows_bound)

lemma take_append_take: "take n (xs @ take n ys) = take n (xs @ ys)"
  by (simp add: min_def)

lemma serve_workflows:
  "length (workflows (memory s)) \<le> 10 \<Longrightarrow>
     workflows (memory (serve rs s)) = take 10 (committed_during rs s @ workflows (memory s))"
proof (induction rs arbitrary: s)
  case Nil
  then show ?case by simp
next
  case (Cons r rs)
  have "workflows (memory (serve rs (handle r s))) =
      take 10 (committed_during rs (handle r s) @ workflows (memory (handle r s)))"
    by (rule Cons.IH) (rule handle_workflows_bound [OF Cons.prems])
  also have "\<dots> =
      take 10 (committed_during rs (handle r s) @ (commits r s @ workflows (memory s)))"
    by (simp only: handle_workflows [OF Cons.prems] take_append_take)
  finally show ?case by simp
qed

lemma addWorkflow_workflows:
  "length (workflows (addWorkflow store workflow)) \<le> 10 \<and>
   workflows (addWorkflow store workflow) = take 10 (workflow # workflows store)"
  by (simp add: addWorkflow_def Let_def)


section \<open>The claims about publishing\<close>

text \<open>
  Claim C1 says that a proper input, with the agent call returning normally, always
  gives four published events. It fails when a subscriber throws: on the server
  where a client of the event stream has gone away, the first \<open>emit\<close> throws, the
  handler ends in its \<open>catch\<close> block, and one event has been published.
\<close>

theorem worker_POST_stale_subscriber_counterexample:
  "error example_request = Some (js ''TypeError: x is undefined'') \<and>
   analyzeError example_env = Resolves example_record \<and>
   map event_type (published (worker_POST forward (subscribers stale_server) example_env
      example_request (memory stale_server) (connections stale_server))) = [T_validation] \<and>
   status_code (response (worker_POST forward (subscribers stale_server) example_env
      example_request (memory stale_server) (connections stale_server))) = 500"
  by (simp add: stale_server_eval example_request_def example_env_def worker_defs forward_def
      controller_enqueue_def)

text \<open>
  Claim C1, as amended: for an input string that is not empty and not white space
  only, the events published are an initial part of \<open>validation\<close>, \<open>workflow\<close>,
  \<open>memory_update\<close>, \<open>completed\<close>, and the id of each begins with the \<open>eventId\<close> of the
  submission; when the agent call returns normally and no subscriber callback throws
  at its turn on the events of this submission, exactly these four events are
  published, in that order, and the response is a success; when a callback throws on
  one of them, the response has status 500.
\<close>

theorem worker_POST_four_events:
  assumes "error request = Some err" and "\<exists>c\<in>set err. \<not> is_white_space c"
  shows "prefix (map event_type (published (worker_POST call subs env request mem w)))
           [T_validation, T_workflow, T_memory_update, T_completed] \<and>
         (\<forall>e\<in>set (published (worker_POST call subs env request mem w)).
            prefix (eventId request) (event_id e)) \<and>
         (analyzeError env = Resolves errorRecord \<longrightarrow>
          returns_all_events call subs
            (published (worker_POST call subs env request mem w)) w \<noteq> None \<longrightarrow>
            map event_type (published (worker_POST call subs env request mem w)) =
              [T_validation, T_workflow, T_memory_update, T_completed] \<and>
            status_code (response (worker_POST call subs env request mem w)) = 200) \<and>
         (returns_all_events call subs
            (published (worker_POST call subs env request mem w)) w = None \<longrightarrow>
            status_code (response (worker_POST call subs env request mem w)) = 500)"
proof (intro conjI ballI impI)
  show "prefix (map event_type (published (worker_POST call subs env request mem w)))
          [T_validation, T_workflow, T_memory_update, T_completed]"
    by (rule published_types_prefix [OF assms])
next
  fix e
  assume "e \<in> set (published (worker_POST call subs env request mem w))"
  then show "prefix (eventId request) (event_id e)"
    by (rule published_ids_prefix)
next
  assume a: "analyzeError env = Resolves errorRecord"
    and q: "returns_all_events call subs
      (published (worker_POST call subs env request mem w)) w \<noteq> None"
  show "map event_type (published (worker_POST call subs env request mem w)) =
      [T_validation, T_workflow, T_memory_update, T_completed]"
    by (rule quiet_four [OF assms a q, THEN conjunct1])
next
  assume a: "analyzeError env = Resolves errorRecord"
    and q: "returns_all_events call subs
      (published (worker_POST call subs env request mem w)) w \<noteq> None"
  show "status_code (response (worker_POST call subs env request mem w)) = 200"
    by (rule quiet_four [OF assms a q, THEN conjunct2])
next
  assume "returns_all_events call subs
      (published (worker_POST call subs env request mem w)) w = None"
  then show "status_code (response (worker_POST call subs env request mem w)) = 500"
    by (rule loud_500)
qed

theorem worker_POST_four_events_witness:
  "map event_type (published (worker_POST forward (subscribers live_server) example_env
      example_request (memory live_server) (connections live_server))) =
     [T_validation, T_workflow, T_memory_update, T_completed] \<and>
   status_code (response (worker_POST forward (subscribers live_server) example_env
      example_request (memory live_server) (connections live_server))) = 200 \<and>
   subscribers live_server = [0]"
proof -
  have e: "error example_request = Some (js ''TypeError: x is undefined'')"
    by (simp add: example_request_def)
  have v: "\<exists>c\<in>set (js ''TypeError: x is undefined''). \<not> is_white_space c"
    by (simp add: js_def is_white_space_def)
  have a: "analyzeError example_env = Resolves example_record"
    by (simp add: example_env_def)
  have q: "returns_all_events forward (subscribers live_server)
      (published (worker_POST forward (subscribers live_server) example_env example_request
         (memory live_server) (connections live_server))) (connections live_server) \<noteq> None"
    by (rule returns_all_events_forward [OF live_server_readable])
  note four = worker_POST_four_events [OF e v, of forward "subscribers live_server"
      example_env "memory live_server" "connections live_server" example_record]
  from four a q
  have kinds: "map event_type (published (worker_POST forward (subscribers live_server)
      example_env example_request (memory live_server) (connections live_server))) =
      [T_validation, T_workflow, T_memory_update, T_completed]"
    and ok: "status_code (response (worker_POST forward (subscribers live_server)
      example_env example_request (memory live_server) (connections live_server))) = 200"
    by blast+
  have "subscribers live_server = [0]"
    by (simp add: live_server_eval)
  with kinds ok show ?thesis by simp
qed

text \<open>
  Claim C2 says that an empty input gives exactly one published event. The handler
  publishes the \<open>validation\<close> event with status \<open>processing\<close> before it looks at the
  input, so an empty input gives two events.
\<close>

theorem worker_POST_empty_input_counterexample:
  "error empty_request = Some [] \<and>
   length (published (worker_POST never_throws [] example_env empty_request
      createMemoryStore [])) = 2 \<and>
   map status (published (worker_POST never_throws [] example_env empty_request
      createMemoryStore [])) = [S_processing, S_error]"
  by (simp add: empty_request_def example_env_def worker_defs)

text \<open>
  Claim C2, as amended: for a parsed request body whose \<open>error\<close> field is missing,
  empty or white space only, every published event has the kind \<open>validation\<close> (none
  has the kind \<open>workflow\<close>, \<open>memory_update\<close> or \<open>completed\<close>) and \<open>memory\<close> is not changed;
  when no subscriber callback throws at its turn on the events of this submission,
  exactly two events are published, the first with status \<open>processing\<close> and the second
  with status \<open>error\<close>, and the response has status 400; when a callback throws on one
  of them, the response has status 500.
\<close>

theorem worker_POST_rejects_blank_input:
  assumes "error request = None \<or>
           (\<exists>s. error request = Some s \<and> (\<forall>c\<in>set s. is_white_space c))"
  shows "(\<forall>e\<in>set (published (worker_POST call subs env request mem w)).
            event_type e = T_validation) \<and>
         memory_after (worker_POST call subs env request mem w) = mem \<and>
         (returns_all_events call subs
            (published (worker_POST call subs env request mem w)) w \<noteq> None \<longrightarrow>
            map status (published (worker_POST call subs env request mem w)) =
              [S_processing, S_error] \<and>
            status_code (response (worker_POST call subs env request mem w)) = 400) \<and>
         (returns_all_events call subs
            (published (worker_POST call subs env request mem w)) w = None \<longrightarrow>
            status_code (response (worker_POST call subs env request mem w)) = 500)"
proof (intro conjI impI)
  show "\<forall>e\<in>set (published (worker_POST call subs env request mem w)).
      event_type e = T_validation"
    by (rule rejected_types [OF assms])
next
  show "memory_after (worker_POST call subs env request mem w) = mem"
    by (rule rejected_memory [OF assms])
next
  assume q: "returns_all_events call subs
      (published (worker_POST call subs env request mem w)) w \<noteq> None"
  show "map status (published (worker_POST call subs env request mem w)) =
      [S_processing, S_error]"
    by (rule quiet_two [OF assms q, THEN conjunct1])
next
  assume q: "returns_all_events call subs
      (published (worker_POST call subs env request mem w)) w \<noteq> None"
  show "status_code (response (worker_POST call subs env request mem w)) = 400"
    by (rule quiet_two [OF assms q, THEN conjunct2])
next
  assume "returns_all_events call subs
      (published (worker_POST call subs env request mem w)) w = None"
  then show "status_code (response (worker_POST call subs env request mem w)) = 500"
    by (rule loud_500)
qed

theorem worker_POST_rejects_blank_input_witness:
  "map event_type (published (worker_POST forward (subscribers live_server) example_env
      blank_request (memory live_server) (connections live_server))) =
     [T_validation, T_validation] \<and>
   map status (published (worker_POST forward (subscribers live_server) example_env
      blank_request (memory live_server) (connections live_server))) =
     [S_processing, S_error] \<and>
   status_code (response (worker_POST forward (subscribers live_server) example_env
      blank_request (memory live_server) (connections live_server))) = 400 \<and>
   subscribers live_server = [0]"
proof -
  let ?r = "worker_POST forward (subscribers live_server) example_env blank_request
      (memory live_server) (connections live_server)"
  have blank: "error blank_request = None \<or>
      (\<exists>s. error blank_request = Some s \<and> (\<forall>c\<in>set s. is_white_space c))"
    by (simp add: blank_request_def is_white_space_def)
  have quiet: "returns_all_events forward (subscribers live_server) (published ?r)
      (connections live_server) \<noteq> None"
    by (rule returns_all_events_forward [OF live_server_readable])
  from worker_POST_rejects_blank_input [OF blank, of forward "subscribers live_server"
      example_env "memory live_server" "connections live_server"] quiet
  have two: "map status (published ?r) = [S_processing, S_error]"
    and bad: "status_code (response ?r) = 400"
    and kinds: "\<forall>e\<in>set (published ?r). event_type e = T_validation"
    by blast+
  from two have "length (published ?r) = 2"
    by (metis length_map length_Cons list.size(3) numeral_2_eq_2)
  with kinds have k: "map event_type (published ?r) = [T_validation, T_validation]"
    by (auto simp: length_Suc_conv numeral_2_eq_2)
  have "subscribers live_server = [0]"
    by (simp add: live_server_eval)
  with k two bad show ?thesis by simp
qed

text \<open>
  Claim C3 says that a callback that throws does not keep the other callbacks from
  being called. \<open>emit\<close> calls the callbacks inside \<open>forEach\<close> with no handler; with
  two subscribers of which the first throws, the second is not called.
\<close>

theorem emit_isolation_counterexample:
  "1 \<in> set [0, 1 :: nat] \<and>
   first_throws 0 example_event [] = None \<and>
   1 \<notin> set (invoked (emit first_throws [0, 1] example_event []))"
  by (simp add: first_throws_def)

text \<open>
  Claim C3, as amended: \<open>emit\<close> calls the subscribed callbacks in the order of their
  subscription and stops at the first one that throws. When the callbacks before some
  callback all return and that callback throws at its turn, \<open>emit\<close> throws, has called
  exactly the callbacks up to and including that one, and none after it; when every
  callback returns at its turn, \<open>emit\<close> returns normally and has called every
  subscribed callback. One of the two is always the case.
\<close>

theorem emit_stops_at_first_throw:
  "(returns_all call pre e w = Some w1 \<longrightarrow> call c e w1 = None \<longrightarrow>
      emit call (pre @ c # post) e w = \<lparr>invoked = pre @ [c], world = w1, raised = True\<rparr>) \<and>
   (returns_all call subs e w = Some w' \<longrightarrow>
      emit call subs e w = \<lparr>invoked = subs, world = w', raised = False\<rparr>) \<and>
   (returns_all call subs e w = None \<longrightarrow>
      (\<exists>pre' c' post' w1'. subs = pre' @ c' # post' \<and>
          returns_all call pre' e w = Some w1' \<and> call c' e w1' = None)) \<and>
   prefix (invoked (emit call subs e w)) subs"
proof (intro conjI impI)
  assume "returns_all call pre e w = Some w1" and "call c e w1 = None"
  then show "emit call (pre @ c # post) e w =
      \<lparr>invoked = pre @ [c], world = w1, raised = True\<rparr>"
    by (rule emit_throw_at_turn)
next
  assume "returns_all call subs e w = Some w'"
  then show "emit call subs e w = \<lparr>invoked = subs, world = w', raised = False\<rparr>"
    by (rule emit_all_return)
next
  assume "returns_all call subs e w = None"
  then show "\<exists>pre' c' post' w1'. subs = pre' @ c' # post' \<and>
      returns_all call pre' e w = Some w1' \<and> call c' e w1' = None"
    by (rule returns_all_None)
next
  show "prefix (invoked (emit call subs e w)) subs"
    by (rule emit_invoked_prefix)
qed

theorem emit_stops_at_first_throw_witness:
  "emit first_throws ([1] @ 0 # [2]) example_event [] =
     \<lparr>invoked = [1] @ [0], world = [1], raised = True\<rparr> \<and>
   emit never_throws [1, 0, 2] example_event [] =
     \<lparr>invoked = [1, 0, 2], world = [1, 0, 2], raised = False\<rparr>"
proof -
  have p: "returns_all first_throws [1] example_event [] = Some [1]"
    by (simp add: first_throws_def)
  have t: "first_throws 0 example_event [1] = None"
    by (simp add: first_throws_def)
  have q: "returns_all never_throws [1, 0, 2] example_event [] = Some [1, 0, 2]"
    by (simp add: never_throws_def)
  from emit_stops_at_first_throw [of first_throws "[1]" example_event "[]" "[1]" 0 "[2]"
      "[1, 0, 2]" "[1, 0, 2]"] p t
  have one: "emit first_throws ([1] @ 0 # [2]) example_event [] =
      \<lparr>invoked = [1] @ [0], world = [1], raised = True\<rparr>"
    by blast
  from emit_stops_at_first_throw [of never_throws "[1]" example_event "[]" "[1]" 0 "[2]"
      "[1, 0, 2]" "[1, 0, 2]"] q
  have two: "emit never_throws [1, 0, 2] example_event [] =
      \<lparr>invoked = [1, 0, 2], world = [1, 0, 2], raised = False\<rparr>"
    by blast
  from one two show ?thesis by simp
qed

text \<open>
  Claim C5 says that a submission that fails after validation leaves \<open>memory\<close> as it
  was. The handler writes \<open>memory\<close> before it publishes the \<open>memory_update\<close> event and
  undoes nothing in its \<open>catch\<close> block: when a subscriber throws on that event (as
  the forwarding callback does when its client goes away during the delay before the
  agent call), the response has status 500 and \<open>totalErrors\<close> has gone from 0 to 1.
\<close>

theorem worker_POST_failure_after_commit_counterexample:
  "error example_request = Some (js ''TypeError: x is undefined'') \<and>
   status_code (response (worker_POST throws_on_memory_update [0] example_env example_request
      createMemoryStore [])) = 500 \<and>
   totalErrors createMemoryStore = 0 \<and>
   totalErrors (memory_after (worker_POST throws_on_memory_update [0] example_env
      example_request createMemoryStore [])) = 1"
  by (simp add: example_request_def example_env_def worker_defs throws_on_memory_update_def
      js_def trim_def is_white_space_def update_memory_def createMemoryStore_def)

text \<open>
  Claim C5, as amended: a submission that passed validation and does not end with a
  success response leaves \<open>memory\<close> either as it was, when the \<open>memory_update\<close> event
  was not published (the failure came before the writes), or with all the writes of
  the handler applied (counter, last text, workflow list and both tallies), when that
  event was published; never with only some of the writes.
\<close>

theorem worker_POST_failure_memory:
  assumes "error request = Some err" and "\<exists>c\<in>set err. \<not> is_white_space c"
    and "status_code (response (worker_POST call subs env request mem w)) \<noteq> 200"
  shows "(T_memory_update \<notin> event_type ` set (published (worker_POST call subs env request mem w)) \<and>
            memory_after (worker_POST call subs env request mem w) = mem) \<or>
         (T_memory_update \<in> event_type ` set (published (worker_POST call subs env request mem w)) \<and>
          (\<exists>errorRecord. analyzeError env = Resolves errorRecord \<and>
             memory_after (worker_POST call subs env request mem w) =
               update_memory mem err
                 (workflowRecord_of (eventId request) errorRecord (date_record env)) errorRecord))"
  using failure_memory [OF assms] .

theorem worker_POST_failure_memory_witness:
  "status_code (response (worker_POST forward (subscribers stale_server) example_env
      example_request (memory stale_server) (connections stale_server))) \<noteq> 200 \<and>
   memory_after (worker_POST forward (subscribers stale_server) example_env
      example_request (memory stale_server) (connections stale_server)) = memory stale_server"
proof -
  have e: "error example_request = Some (js ''TypeError: x is undefined'')"
    by (simp add: example_request_def)
  have v: "\<exists>c\<in>set (js ''TypeError: x is undefined''). \<not> is_white_space c"
    by (simp add: js_def is_white_space_def)
  have f: "status_code (response (worker_POST forward (subscribers stale_server) example_env
      example_request (memory stale_server) (connections stale_server))) \<noteq> 200"
    by (simp add: stale_server_eval worker_defs forward_def controller_enqueue_def)
  have p: "T_memory_update \<notin> event_type ` set (published (worker_POST forward
      (subscribers stale_server) example_env example_request (memory stale_server)
      (connections stale_server)))"
    by (simp add: stale_server_eval worker_defs forward_def controller_enqueue_def)
  show ?thesis
    using f p worker_POST_failure_memory [OF e v f] by blast
qed


text \<open>
  Claim C6: every successful submission adds exactly 1 to \<open>totalErrors\<close> and puts its
  workflow record in front of the list, which is cut to ten entries; after any
  sequence of requests to the server the list has at most ten entries and holds the
  records written so far, newest first; \<open>memoryOperations.addWorkflow\<close> prepends and
  cuts in the same way.
\<close>

theorem totalErrors_and_workflows:
  "(status_code (response (worker_POST call subs env request mem w)) = 200 \<longrightarrow>
      totalErrors (memory_after (worker_POST call subs env request mem w)) =
        totalErrors mem + 1 \<and>
      (\<exists>errorRecord. analyzeError env = Resolves errorRecord \<and>
         workflows (memory_after (worker_POST call subs env request mem w)) =
           take 10 (workflowRecord_of (eventId request) errorRecord (date_record env) #
                    workflows mem))) \<and>
   length (workflows (memory (serve rs initial_server))) \<le> 10 \<and>
   workflows (memory (serve rs initial_server)) =
     take 10 (committed_during rs initial_server) \<and>
   workflows (addWorkflow store workflow) = take 10 (workflow # workflows store)"
proof (intro conjI impI)
  assume ok: "status_code (response (worker_POST call subs env request mem w)) = 200"
  from success_memory [OF ok]
  show "totalErrors (memory_after (worker_POST call subs env request mem w)) =
      totalErrors mem + 1"
    by (auto simp: update_memory_totalErrors)
next
  assume ok: "status_code (response (worker_POST call subs env request mem w)) = 200"
  from success_memory [OF ok]
  show "\<exists>errorRecord. analyzeError env = Resolves errorRecord \<and>
      workflows (memory_after (worker_POST call subs env request mem w)) =
        take 10 (workflowRecord_of (eventId request) errorRecord (date_record env) #
                 workflows mem)"
    by (auto simp: update_memory_workflows)
next
  have "length (workflows (memory initial_server)) \<le> 10"
    by (simp add: initial_server_def createMemoryStore_def)
  then show "length (workflows (memory (serve rs initial_server))) \<le> 10"
    by (rule serve_workflows_bound)
next
  have "length (workflows (memory initial_server)) \<le> 10"
    by (simp add: initial_server_def createMemoryStore_def)
  from serve_workflows [OF this, of rs]
  show "workflows (memory (serve rs initial_server)) =
      take 10 (committed_during rs initial_server)"
    by (simp add: initial_server_def createMemoryStore_def)
next
  show "workflows (addWorkflow store workflow) = take 10 (workflow # workflows store)"
    by (simp add: addWorkflow_workflows)
qed

theorem totalErrors_and_workflows_witness:
  "status_code (response (worker_POST never_throws [0, 1] example_env example_request
      createMemoryStore [])) = 200 \<and>
   totalErrors (memory_after (worker_POST never_throws [0, 1] example_env example_request
      createMemoryStore [])) = 1 \<and>
   length (workflows (memory (serve
      [Worker_POST example_env example_request, Worker_POST example_env example_request]
      initial_server))) \<le> 10"
proof -
  have v: "\<exists>c\<in>set (js ''TypeError: x is undefined''). \<not> is_white_space c"
    by (simp add: js_def is_white_space_def)
  have q: "\<forall>c\<in>set [0, 1]. \<forall>e w. never_throws c e w \<noteq> None"
    by (simp add: never_throws_def)
  have ok: "status_code (response (worker_POST never_throws [0, 1] example_env example_request
      createMemoryStore [])) = 200"
    using published_four [OF _ v _ q, of example_request example_env example_record
        createMemoryStore "[]"]
    by (simp add: example_request_def example_env_def)
  note t = totalErrors_and_workflows [of never_throws "[0, 1]" example_env example_request
      createMemoryStore "[]"
      "[Worker_POST example_env example_request, Worker_POST example_env example_request]"]
  from t ok have "totalErrors (memory_after (worker_POST never_throws [0, 1] example_env
      example_request createMemoryStore [])) = totalErrors createMemoryStore + 1"
    by blast
  then have one: "totalErrors (memory_after (worker_POST never_throws [0, 1] example_env
      example_request createMemoryStore [])) = 1"
    by (simp add: createMemoryStore_def)
  from t have "length (workflows (memory (serve
      [Worker_POST example_env example_request, Worker_POST example_env example_request]
      initial_server))) \<le> 10"
    by blast
  with ok one show ?thesis by simp
qed


section \<open>The claims about subscriptions\<close>

text \<open>
  Claim C7 says that after one subscriber has unsubscribed, a publish delivers the
  event to every other subscriber. With three subscribers of which the first
  unsubscribes and the second throws, the third is still subscribed and is not called.
\<close>

theorem unsubscribe_delivery_counterexample:
  "2 \<in> set (unsubscribe 1 [1, 0, 2 :: nat]) \<and>
   first_throws 0 example_event [] = None \<and>
   2 \<notin> set (invoked (emit first_throws (unsubscribe 1 [1, 0, 2]) example_event []))"
  by (simp add: unsubscribe_def first_throws_def)

text \<open>
  Claim C7, as amended: \<open>subscribe\<close> registers the callback, and the function it
  returns removes exactly that callback whenever it is called: the subscribers
  afterwards are the former ones without that callback, in their order. Calling it
  again changes nothing. An \<open>emit\<close> after it never calls the removed callback; it
  calls the remaining callbacks in their order, all of them when each returns at its
  turn, and up to and including the first that throws at its turn otherwise; of two
  subscribers, the one that stays is called by the next \<open>emit\<close> whatever happens.
\<close>

theorem unsubscribe_removes_only_that_callback:
  "cb \<in> set (subscribe cb subs) \<and>
   unsubscribe cb subs = filter (\<lambda>c. c \<noteq> cb) subs \<and>
   (\<forall>c. c \<in> set (unsubscribe cb subs) \<longleftrightarrow> c \<in> set subs \<and> c \<noteq> cb) \<and>
   unsubscribe cb (subscribe cb subs) = unsubscribe cb subs \<and>
   unsubscribe cb (unsubscribe cb subs) = unsubscribe cb subs \<and>
   cb \<notin> set (invoked (emit call (unsubscribe cb subs) e w)) \<and>
   (returns_all call (filter (\<lambda>c. c \<noteq> cb) subs) e w = Some w' \<longrightarrow>
      emit call (unsubscribe cb subs) e w =
        \<lparr>invoked = filter (\<lambda>c. c \<noteq> cb) subs, world = w', raised = False\<rparr>) \<and>
   (filter (\<lambda>c. c \<noteq> cb) subs = pre @ c # post \<longrightarrow>
    returns_all call pre e w = Some w1 \<longrightarrow> call c e w1 = None \<longrightarrow>
      emit call (unsubscribe cb subs) e w =
        \<lparr>invoked = pre @ [c], world = w1, raised = True\<rparr>) \<and>
   (a \<noteq> b \<longrightarrow>
      b \<in> set (invoked (emit call (unsubscribe a (subscribe b (subscribe a []))) e w)) \<and>
      b \<in> set (invoked (emit call (unsubscribe a (subscribe a (subscribe b []))) e w)))"
proof -
  have r: "cb \<in> set (subscribe cb subs)"
    by (simp add: subscribe_def)
  have f: "unsubscribe cb subs = filter (\<lambda>c. c \<noteq> cb) subs"
    by (rule unsubscribe_filter)
  have m: "\<forall>c. c \<in> set (unsubscribe cb subs) \<longleftrightarrow> c \<in> set subs \<and> c \<noteq> cb"
    by (auto simp: f)
  have g: "unsubscribe cb (subscribe cb subs) = unsubscribe cb subs"
    by (simp add: unsubscribe_def subscribe_def)
  have i: "unsubscribe cb (unsubscribe cb subs) = unsubscribe cb subs"
    by (rule unsubscribe_idem)
  have n: "cb \<notin> set (invoked (emit call (unsubscribe cb subs) e w))"
    using emit_invoked_subset [of call "unsubscribe cb subs" e w]
    by (auto simp: f)
  have d: "returns_all call (filter (\<lambda>c. c \<noteq> cb) subs) e w = Some w' \<longrightarrow>
      emit call (unsubscribe cb subs) e w =
        \<lparr>invoked = filter (\<lambda>c. c \<noteq> cb) subs, world = w', raised = False\<rparr>"
    using emit_all_return [of call "filter (\<lambda>c. c \<noteq> cb) subs" e w w'] by (simp add: f)
  have x: "filter (\<lambda>c. c \<noteq> cb) subs = pre @ c # post \<longrightarrow>
      returns_all call pre e w = Some w1 \<longrightarrow> call c e w1 = None \<longrightarrow>
      emit call (unsubscribe cb subs) e w =
        \<lparr>invoked = pre @ [c], world = w1, raised = True\<rparr>"
    using emit_throw_at_turn [of call pre e w w1 c post] by (simp add: f)
  have two: "a \<noteq> b \<Longrightarrow> unsubscribe a (subscribe b (subscribe a [])) = [b] \<and>
       unsubscribe a (subscribe a (subscribe b [])) = [b]"
    by (simp add: unsubscribe_def subscribe_def)
  have hd: "b \<in> set (invoked (emit call [b] e w))"
    by (simp split: option.splits)
  have t: "a \<noteq> b \<longrightarrow>
      b \<in> set (invoked (emit call (unsubscribe a (subscribe b (subscribe a []))) e w)) \<and>
      b \<in> set (invoked (emit call (unsubscribe a (subscribe a (subscribe b []))) e w))"
    using two hd by simp
  from r f m g i n d x t show ?thesis by blast
qed

theorem unsubscribe_removes_only_that_callback_witness:
  "unsubscribe 1 (subscribe 1 [0, 2]) = [0, 2 :: nat] \<and>
   emit never_throws (unsubscribe 1 [0, 1, 2]) example_event [] =
     \<lparr>invoked = [0, 2], world = [0, 2], raised = False\<rparr> \<and>
   emit first_throws (unsubscribe 1 [1, 0, 2]) example_event [] =
     \<lparr>invoked = [0], world = [], raised = True\<rparr> \<and>
   2 \<in> set (invoked (emit first_throws (unsubscribe 0 (subscribe 2 (subscribe 0 [])))
      example_event []))"
proof -
  note t = unsubscribe_removes_only_that_callback [of 1 "[0, 1, 2]" never_throws
      example_event "[]" "[0, 2]" "[]" 0 "[2]" "[]" 0 2]
  note u = unsubscribe_removes_only_that_callback [of 1 "[0, 2]" first_throws
      example_event "[]" "[0, 2]" "[]" 0 "[2]" "[]" 0 2]
  note x = unsubscribe_removes_only_that_callback [of 1 "[1, 0, 2]" first_throws
      example_event "[]" "[0, 2]" "[]" 0 "[2]" "[]" 0 2]
  have q: "returns_all never_throws (filter (\<lambda>c. c \<noteq> 1) [0, 1, 2]) example_event [] =
      Some [0, 2]"
    by (simp add: never_throws_def)
  from t q have "emit never_throws (unsubscribe 1 [0, 1, 2]) example_event [] =
      \<lparr>invoked = filter (\<lambda>c. c \<noteq> 1) [0, 1, 2], world = [0, 2], raised = False\<rparr>"
    by blast
  then have i: "emit never_throws (unsubscribe 1 [0, 1, 2]) example_event [] =
      \<lparr>invoked = [0, 2], world = [0, 2], raised = False\<rparr>"
    by simp
  have h1: "filter (\<lambda>c. c \<noteq> 1) [1, 0, 2 :: nat] = [] @ 0 # [2]"
    by simp
  have h2: "returns_all first_throws [] example_event [] = Some []"
    by simp
  have h3: "first_throws 0 example_event [] = None"
    by (simp add: first_throws_def)
  from x h1 h2 h3 have "emit first_throws (unsubscribe 1 [1, 0, 2]) example_event [] =
      \<lparr>invoked = [] @ [0], world = [], raised = True\<rparr>"
    by blast
  then have j: "emit first_throws (unsubscribe 1 [1, 0, 2]) example_event [] =
      \<lparr>invoked = [0], world = [], raised = True\<rparr>"
    by simp
  from u have "unsubscribe 1 (subscribe 1 [0, 2]) = unsubscribe 1 [0, 2 :: nat]"
    and "unsubscribe 1 [0, 2 :: nat] = filter (\<lambda>c. c \<noteq> 1) [0, 2]"
    by blast+
  then have f: "unsubscribe 1 (subscribe 1 [0, 2]) = [0, 2 :: nat]"
    by simp
  from u have s: "2 \<in> set (invoked (emit first_throws
      (unsubscribe 0 (subscribe 2 (subscribe 0 []))) example_event []))"
    by simp
  from f i j s show ?thesis by simp
qed

text \<open>
  Claim C8: the emitter keeps no event. A connection opened after any sequence of
  requests holds the connection message as its only chunk, and whatever the server
  handles afterwards, the chunks of that connection are the connection message followed
  by chunks of which every event was published after the connection was opened.
\<close>

theorem new_connection_gets_no_earlier_event:
  assumes "events_GET (serve earlier initial_server) = (s, cid)"
  shows "frames (connections s ! cid) = [Connected_frame] \<and>
         (\<exists>fs. frames (connections (serve later s) ! cid) = Connected_frame # fs \<and>
               (\<forall>e. Event_frame e \<in> set fs \<longrightarrow> e \<in> set (published_during later s)))"
proof -
  have f: "frames (connections s ! cid) = [Connected_frame]"
    using events_GET_frames [OF assms] by blast
  have "length (connections s) = Suc cid"
    using events_GET_frames [OF assms] by blast
  then have l: "cid < length (connections s)"
    by simp
  from serve_received [of later s] l obtain fs where
    fs: "frames (connections (serve later s) ! cid) = frames (connections s ! cid) @ fs"
      "set fs \<subseteq> insert Keepalive_frame (Event_frame ` set (published_during later s))"
    by (auto simp: received_only_def)
  have "\<forall>e. Event_frame e \<in> set fs \<longrightarrow> e \<in> set (published_during later s)"
    using fs(2) by auto
  with f fs(1) show ?thesis by simp
qed

theorem new_connection_gets_no_earlier_event_witness:
  "map event_type (published_during [Worker_POST example_env example_request] initial_server) =
     [T_validation, T_workflow, T_memory_update, T_completed] \<and>
   frames (connections (fst (events_GET (serve [Worker_POST example_env example_request]
      initial_server))) ! snd (events_GET (serve [Worker_POST example_env example_request]
      initial_server))) = [Connected_frame]"
proof -
  have v: "\<exists>c\<in>set (js ''TypeError: x is undefined''). \<not> is_white_space c"
    by (simp add: js_def is_white_space_def)
  have p: "map event_type (published_during [Worker_POST example_env example_request]
      initial_server) = [T_validation, T_workflow, T_memory_update, T_completed]"
    using published_four [OF _ v, of example_request example_env example_record "[]" forward
        createMemoryStore "[]"]
    by (simp add: initial_server_def example_request_def example_env_def)
  have g: "events_GET (serve [Worker_POST example_env example_request] initial_server) =
      (fst (events_GET (serve [Worker_POST example_env example_request] initial_server)),
       snd (events_GET (serve [Worker_POST example_env example_request] initial_server)))"
    by simp
  from new_connection_gets_no_earlier_event [OF g, of "[]"] p show ?thesis
    by blast
qed

text \<open>
  Claim C4 says that when a connection of the event stream closes, the unsubscription
  and the cancellation of the interval both happen. The route returns its cleanup
  function from \<open>start\<close>, where nothing calls it, and its stream source has no
  \<open>cancel\<close>: after the only client has connected and gone away, its callback is still
  subscribed and its interval still scheduled, on a closed stream.
\<close>

theorem events_disconnect_leaves_subscription:
  "subscribers (client_disconnect 0 (fst (events_GET initial_server))) = [0] \<and>
   interval_active (connections (client_disconnect 0 (fst (events_GET initial_server))) ! 0) \<and>
   stream (connections (client_disconnect 0 (fst (events_GET initial_server))) ! 0) = Closed"
  by (simp add: initial_server_def events_GET_def new_ReadableStream_def
      events_source_def events_start_def controller_enqueue_def subscribe_def
      client_disconnect_def ReadableStream_cancel_def Let_def)


section \<open>The claims about the two stores\<close>

text \<open>
  Claim C9 says that nothing outside the worker's writes and the clear operation can
  write single fields of the store. \<open>POST /api/memory\<close> does: a body that names
  \<open>totalErrors\<close> alone replaces that field and keeps the others.
\<close>

theorem memory_POST_partial_update_counterexample:
  "totalErrors createMemoryStore = 0 \<and>
   totalErrors (fst (memory_POST (Some example_updates) createMemoryStore)) = 5 \<and>
   lastProcessed (fst (memory_POST (Some example_updates) createMemoryStore)) =
     lastProcessed createMemoryStore \<and>
   workflows (fst (memory_POST (Some example_updates) createMemoryStore)) =
     workflows createMemoryStore \<and>
   statistics (fst (memory_POST (Some example_updates) createMemoryStore)) =
     statistics createMemoryStore"
  by (simp add: memory_POST_def spread_def example_updates_def createMemoryStore_def Let_def)

text \<open>
  Claim C9, as amended: the store of the memory route is written by the route's
  \<open>POST\<close>, which replaces the top-level fields that the request body names and keeps
  the others, and by \<open>DELETE\<close>, which sets every field (\<open>totalErrors\<close>,
  \<open>lastProcessed\<close>, \<open>workflows\<close>, both tallies) to its initial value in one step,
  whatever the store held. The worker's \<open>memory\<close> is written by nothing but the writes
  of the worker's \<open>POST\<close>, all of them together.
\<close>

theorem memory_route_writes:
  "fst (memory_DELETE m) = createMemoryStore \<and>
   snd (memory_DELETE m) = \<lparr>status_code = 200, body = Memory_success createMemoryStore\<rparr> \<and>
   totalErrors (fst (memory_POST (Some u) m)) =
     (case new_totalErrors u of None \<Rightarrow> totalErrors m | Some v \<Rightarrow> v) \<and>
   lastProcessed (fst (memory_POST (Some u) m)) =
     (case new_lastProcessed u of None \<Rightarrow> lastProcessed m | Some v \<Rightarrow> v) \<and>
   workflows (fst (memory_POST (Some u) m)) =
     (case new_workflows u of None \<Rightarrow> workflows m | Some v \<Rightarrow> v) \<and>
   statistics (fst (memory_POST (Some u) m)) =
     (case new_statistics u of None \<Rightarrow> statistics m | Some v \<Rightarrow> v) \<and>
   fst (memory_POST None m) = m \<and>
   (memory (handle r s) = memory s \<or>
    (\<exists>err workflowRecord errorRecord.
       memory (handle r s) = update_memory (memory s) err workflowRecord errorRecord))"
  using handle_memory_cases [of r s]
  by (simp add: memory_DELETE_def memory_POST_def spread_def createMemoryStore_def Let_def)

theorem memory_route_writes_witness:
  "totalErrors (fst (memory_POST (Some example_updates) createMemoryStore)) = 5 \<and>
   fst (memory_DELETE (fst (memory_POST (Some example_updates) createMemoryStore))) =
     createMemoryStore"
  using memory_route_writes [of "fst (memory_POST (Some example_updates) createMemoryStore)"
      example_updates Memory_GET initial_server]
    memory_route_writes [of createMemoryStore example_updates Memory_GET initial_server]
  by (simp add: example_updates_def)

text \<open>
  Claim C10: \<open>memory\<close> of the worker route and \<open>memoryStore\<close> of the memory route are
  two variables. No handler of the memory route changes \<open>memory\<close> or what the worker's
  \<open>GET\<close> answers, and the worker's \<open>POST\<close> changes neither \<open>memoryStore\<close> nor what
  \<open>GET /api/memory\<close> answers; in particular \<open>DELETE /api/memory\<close> leaves the worker's
  \<open>totalErrors\<close>, \<open>workflows\<close> and \<open>statistics\<close> as they are.
\<close>

theorem worker_memory_and_memoryStore_are_separate:
  "memory (handle Memory_GET s) = memory s \<and>
   memory (handle (Memory_POST u) s) = memory s \<and>
   memory (handle Memory_DELETE s) = memory s \<and>
   respond Worker_GET (handle (Memory_POST u) s) = respond Worker_GET s \<and>
   respond Worker_GET (handle Memory_DELETE s) = respond Worker_GET s \<and>
   totalErrors (memory (handle Memory_DELETE s)) = totalErrors (memory s) \<and>
   workflows (memory (handle Memory_DELETE s)) = workflows (memory s) \<and>
   statistics (memory (handle Memory_DELETE s)) = statistics (memory s) \<and>
   memoryStore (handle (Worker_POST env rq) s) = memoryStore s \<and>
   respond Memory_GET (handle (Worker_POST env rq) s) = respond Memory_GET s"
  by (simp add: server_worker_POST_def Let_def)

theorem worker_memory_and_memoryStore_are_separate_witness:
  "totalErrors (memory (serve [Worker_POST example_env example_request] initial_server)) = 1 \<and>
   totalErrors (memory (serve [Worker_POST example_env example_request, Memory_DELETE]
      initial_server)) = 1 \<and>
   memoryStore (serve [Worker_POST example_env example_request] initial_server) =
     createMemoryStore"
proof -
  let ?s = "handle (Worker_POST example_env example_request) initial_server"
  have v: "\<exists>c\<in>set (js ''TypeError: x is undefined''). \<not> is_white_space c"
    by (simp add: js_def is_white_space_def)
  have ok: "status_code (response (worker_POST forward [] example_env example_request
      createMemoryStore [])) = 200"
    using published_four [OF _ v, of example_request example_env example_record "[]" forward
        createMemoryStore "[]"]
    by (simp add: example_request_def example_env_def)
  from success_memory [OF ok]
  have one: "totalErrors (memory ?s) = 1"
    by (auto simp: server_worker_POST_def initial_server_def Let_def update_memory_totalErrors
        createMemoryStore_def)
  note sep = worker_memory_and_memoryStore_are_separate [of ?s "Some example_updates"
      example_env example_request]
  note sep0 = worker_memory_and_memoryStore_are_separate [of initial_server
      "Some example_updates" example_env example_request]
  from sep have "totalErrors (memory (handle Memory_DELETE ?s)) = totalErrors (memory ?s)"
    by blast
  with one have two: "totalErrors (memory (handle Memory_DELETE ?s)) = 1"
    by simp
  from sep0 have "memoryStore ?s = memoryStore initial_server"
    by blast
  then have three: "memoryStore ?s = createMemoryStore"
    by (simp add: initial_server_def)
  from one two three show ?thesis by simp
qed

end
